theory Spec2Isabelle
  imports Complex_Main "HOL-Library.List_Lexorder" "HOL-Library.Char_ord" "HOL-Library.Product_Lexorder"
begin

section \<open>SQL values: NULL and three-valued logic\<close>

text \<open>
  The analytics of the repository live in \<^verbatim>\<open>backend/scripts/init_db.sql\<close>. A nullable
  SQL value is modelled as an option, \<open>None\<close> being NULL. A comparison with NULL is
  NULL, and a \<^verbatim>\<open>WHEN\<close>, \<^verbatim>\<open>WHERE\<close> or \<^verbatim>\<open>ON\<close> condition selects a row only when it is
  true. Columns of type \<^verbatim>\<open>FLOAT\<close> and \<^verbatim>\<open>numeric\<close> are modelled as exact rationals:
  the queries only compare, take maxima, divide two counts and round, and the sixteen or
  more significant digits that a \<^verbatim>\<open>numeric\<close> quotient keeps are taken as exact.
\<close>

definition sql_eq :: "'a option \<Rightarrow> 'a option \<Rightarrow> bool option" where
  "sql_eq a b = (case a of None \<Rightarrow> None | Some x \<Rightarrow> (case b of None \<Rightarrow> None | Some y \<Rightarrow> Some (x = y)))"

definition sql_ge :: "('a::linorder) option \<Rightarrow> 'a option \<Rightarrow> bool option" where
  "sql_ge a b = (case a of None \<Rightarrow> None | Some x \<Rightarrow> (case b of None \<Rightarrow> None | Some y \<Rightarrow> Some (x \<ge> y)))"

definition sql_lt :: "('a::linorder) option \<Rightarrow> 'a option \<Rightarrow> bool option" where
  "sql_lt a b = (case a of None \<Rightarrow> None | Some x \<Rightarrow> (case b of None \<Rightarrow> None | Some y \<Rightarrow> Some (x < y)))"

definition sql_and :: "bool option \<Rightarrow> bool option \<Rightarrow> bool option" where
  "sql_and a b =
     (if a = Some False \<or> b = Some False then Some False
      else if a = Some True \<and> b = Some True then Some True
      else None)"

definition is_true :: "bool option \<Rightarrow> bool" where
  "is_true c = (c = Some True)"

datatype sql_error = division_by_zero

definition sql_div :: "rat option \<Rightarrow> rat option \<Rightarrow> sql_error + rat option" where
  "sql_div a b =
     (case a of None \<Rightarrow> Inr None
      | Some x \<Rightarrow> (case b of None \<Rightarrow> Inr None
          | Some y \<Rightarrow> if y = 0 then Inl division_by_zero else Inr (Some (x / y))))"

definition sql_mul :: "rat option \<Rightarrow> rat option \<Rightarrow> rat option" where
  "sql_mul a b = (case a of None \<Rightarrow> None | Some x \<Rightarrow> (case b of None \<Rightarrow> None | Some y \<Rightarrow> Some (x * y)))"

definition NULLIF :: "int \<Rightarrow> int \<Rightarrow> int option" where
  "NULLIF a b = (if a = b then None else Some a)"

definition numeric :: "int option \<Rightarrow> rat option" where
  "numeric a = map_option of_int a"

text \<open>\<^verbatim>\<open>ROUND(x, n)\<close> on numeric rounds half away from zero; NULL stays NULL.\<close>

definition round_half_away :: "rat \<Rightarrow> nat \<Rightarrow> rat" where
  "round_half_away x n = sgn x * of_int \<lfloor>\<bar>x\<bar> * 10 ^ n + 1 / 2\<rfloor> / 10 ^ n"

definition ROUND :: "rat option \<Rightarrow> nat \<Rightarrow> rat option" where
  "ROUND a n = map_option (\<lambda>x. round_half_away x n) a"

section \<open>Joins, grouping and aggregates\<close>

text \<open>
  A table is a list of rows. A row of the right-hand table of a \<^verbatim>\<open>LEFT JOIN\<close> is an
  option: \<open>None\<close> is the row of NULLs produced when nothing matches.
\<close>

definition left_join :: "'a list \<Rightarrow> 'b list \<Rightarrow> ('a \<Rightarrow> 'b \<Rightarrow> bool option) \<Rightarrow> ('a \<times> 'b option) list" where
  "left_join xs ys on =
     concat (map (\<lambda>x. let ms = filter (\<lambda>y. is_true (on x y)) ys
                      in if ms = [] then [(x, None)] else map (\<lambda>y. (x, Some y)) ms) xs)"

definition inner_join :: "'a list \<Rightarrow> 'b list \<Rightarrow> ('a \<Rightarrow> 'b \<Rightarrow> bool option) \<Rightarrow> ('a \<times> 'b) list" where
  "inner_join xs ys on =
     concat (map (\<lambda>x. map (\<lambda>y. (x, y)) (filter (\<lambda>y. is_true (on x y)) ys)) xs)"

definition group_by :: "('r \<Rightarrow> 'k) \<Rightarrow> 'r list \<Rightarrow> ('k \<times> 'r list) list" where
  "group_by key rows = map (\<lambda>k. (k, filter (\<lambda>r. key r = k) rows)) (remdups (map key rows))"

fun non_null :: "'a option list \<Rightarrow> 'a list" where
  "non_null [] = []"
| "non_null (None # vs) = non_null vs"
| "non_null (Some v # vs) = v # non_null vs"

definition count_distinct :: "'a option list \<Rightarrow> int" where
  "count_distinct vs = int (length (remdups (non_null vs)))"

definition count_star :: "'r list \<Rightarrow> int" where
  "count_star rows = int (length rows)"

definition sql_max :: "('a::linorder) option list \<Rightarrow> 'a option" where
  "sql_max vs = (case non_null vs of [] \<Rightarrow> None | x # xs \<Rightarrow> Some (fold max xs x))"

function generate_series :: "int \<Rightarrow> int \<Rightarrow> int \<Rightarrow> int list" where
  "generate_series start stop step =
     (if step \<le> 0 \<or> stop < start then [] else start # generate_series (start + step) stop step)"
  by pat_completeness auto
termination
  by (relation "measure (\<lambda>(start, stop, step). nat (stop - start + 1))") auto

declare generate_series.simps [simp del]

fun collect :: "('e + 'a) list \<Rightarrow> 'e + 'a list" where
  "collect [] = Inr []"
| "collect (x # xs) =
     (case x of Inl e \<Rightarrow> Inl e
      | Inr v \<Rightarrow> (case collect xs of Inl e \<Rightarrow> Inl e | Inr vs \<Rightarrow> Inr (v # vs)))"

section \<open>Tables\<close>

text \<open>
  Only the columns the modelled queries read are kept. \<^verbatim>\<open>user_id\<close>, \<^verbatim>\<open>course_id\<close> and
  \<^verbatim>\<open>progress_percent\<close> are \<^verbatim>\<open>NOT NULL\<close>; \<^verbatim>\<open>is_dropout\<close>, \<^verbatim>\<open>status\<close> and \<^verbatim>\<open>is_active\<close>
  only have defaults and may be NULL.
\<close>

record learning_log =
  l_user_id :: int
  l_course_id :: int
  l_progress_percent :: rat
  l_is_dropout :: "bool option"

record enrollment =
  e_user_id :: int
  e_course_id :: int
  e_status :: "string option"

record course =
  c_id :: int
  c_course_code :: string
  c_title :: string
  c_category :: string
  c_difficulty :: string
  c_is_active :: "bool option"

section \<open>The function \<^verbatim>\<open>analyze_course_dropout\<close>\<close>

record ump_row =
  u_user_id :: int
  u_max_progress :: "rat option"

definition user_max_progress :: "learning_log list \<Rightarrow> int \<Rightarrow> ump_row list" where
  "user_max_progress learning_logs p_course_id =
     map (\<lambda>(uid, g). \<lparr>u_user_id = uid,
                       u_max_progress = sql_max (map (\<lambda>l. Some (l_progress_percent l)) g)\<rparr>)
       (group_by l_user_id (filter (\<lambda>l. l_course_id l = p_course_id) learning_logs))"

definition segments :: "int list" where
  "segments = generate_series 0 90 10"

text \<open>
  \<^verbatim>\<open>FROM segments s LEFT JOIN user_max_progress u ON u.max_progress >= s.seg_start
  LEFT JOIN learning_logs l ON l.user_id = u.user_id AND l.course_id = p_course_id\<close>
\<close>

type_synonym joined_row = "(int \<times> ump_row option) \<times> learning_log option"

definition segment_join :: "learning_log list \<Rightarrow> int \<Rightarrow> joined_row list" where
  "segment_join learning_logs p_course_id =
     left_join
       (left_join segments (user_max_progress learning_logs p_course_id)
          (\<lambda>s u. sql_ge (u_max_progress u) (Some (of_int s))))
       learning_logs
       (\<lambda>(s, u) l. sql_and (sql_eq (Some (l_user_id l)) (map_option u_user_id u))
                           (sql_eq (Some (l_course_id l)) (Some p_course_id)))"

text \<open>
  \<^verbatim>\<open>CASE WHEN l.is_dropout = TRUE AND l.progress_percent >= s.seg_start
        AND l.progress_percent < s.seg_start + 10 THEN l.user_id END\<close>
\<close>

definition dropout_case :: "joined_row \<Rightarrow> int option" where
  "dropout_case r =
     (case r of ((s, u), l) \<Rightarrow>
        if is_true
             (sql_and
                (sql_and (sql_eq (Option.bind l l_is_dropout) (Some True))
                         (sql_ge (map_option l_progress_percent l) (Some (of_int s))))
                (sql_lt (map_option l_progress_percent l) (Some (of_int (s + 10)))))
        then map_option l_user_id l else None)"

definition reached_case :: "joined_row \<Rightarrow> int option" where
  "reached_case r = (case r of ((s, u), l) \<Rightarrow> map_option u_user_id u)"

record sa_row =
  seg_start :: int
  seg_end :: int
  sa_users_reached :: int
  dropouts :: int

definition segment_analysis :: "learning_log list \<Rightarrow> int \<Rightarrow> sa_row list" where
  "segment_analysis learning_logs p_course_id =
     map (\<lambda>(s, g). \<lparr>seg_start = s, seg_end = s + 10,
                     sa_users_reached = count_distinct (map reached_case g),
                     dropouts = count_distinct (map dropout_case g)\<rparr>)
       (group_by (\<lambda>r. fst (fst r)) (segment_join learning_logs p_course_id))"

record dropout_row =
  segment_start :: int
  segment_end :: int
  users_reached :: int
  dropout_count :: int
  dropout_rate :: "rat option"
  risk_level :: string

text \<open>The expression \<^verbatim>\<open>sa.dropouts::numeric / NULLIF(sa.users_reached, 0) * 100\<close>.\<close>

definition rate_expr :: "int \<Rightarrow> int \<Rightarrow> sql_error + rat option" where
  "rate_expr d u =
     (case sql_div (numeric (Some d)) (numeric (NULLIF u 0)) of
        Inl e \<Rightarrow> Inl e
      | Inr q \<Rightarrow> Inr (sql_mul q (Some 100)))"

text \<open>The \<^verbatim>\<open>CASE\<close> of the risk level, on the value of that expression.\<close>

definition risk_case :: "rat option \<Rightarrow> string" where
  "risk_case rate =
     (if is_true (sql_ge rate (Some 20)) then ''critical''
      else if is_true (sql_ge rate (Some 15)) then ''high''
      else if is_true (sql_ge rate (Some 10)) then ''medium''
      else ''low'')"

definition result_row :: "sa_row \<Rightarrow> sql_error + dropout_row" where
  "result_row sa =
     (case rate_expr (dropouts sa) (sa_users_reached sa) of
        Inl e \<Rightarrow> Inl e
      | Inr rate \<Rightarrow>
          Inr \<lparr>segment_start = seg_start sa, segment_end = seg_end sa,
               users_reached = sa_users_reached sa, dropout_count = dropouts sa,
               dropout_rate = ROUND rate 2, risk_level = risk_case rate\<rparr>)"

definition analyze_course_dropout :: "learning_log list \<Rightarrow> int \<Rightarrow> sql_error + dropout_row list" where
  "analyze_course_dropout learning_logs p_course_id =
     (case collect (map result_row (segment_analysis learning_logs p_course_id)) of
        Inl e \<Rightarrow> Inl e
      | Inr rows \<Rightarrow> Inr (sort_key segment_start rows))"

text \<open>
  Names for intermediate values of the query: the rows of the join that fall in the group
  of one segment, and the distinct non-NULL values that the two \<^verbatim>\<open>COUNT(DISTINCT ...)\<close>
  count there.
\<close>

definition segment_group :: "learning_log list \<Rightarrow> int \<Rightarrow> int \<Rightarrow> joined_row list" where
  "segment_group learning_logs p_course_id s =
     filter (\<lambda>r. fst (fst r) = s) (segment_join learning_logs p_course_id)"

definition reached_ids :: "learning_log list \<Rightarrow> int \<Rightarrow> int \<Rightarrow> int list" where
  "reached_ids learning_logs p_course_id s =
     remdups (non_null (map reached_case (segment_group learning_logs p_course_id s)))"

definition dropout_ids :: "learning_log list \<Rightarrow> int \<Rightarrow> int \<Rightarrow> int list" where
  "dropout_ids learning_logs p_course_id s =
     remdups (non_null (map dropout_case (segment_group learning_logs p_course_id s)))"

section \<open>The view \<^verbatim>\<open>v_course_summary\<close>\<close>

record summary_row =
  cs_course_id :: int
  cs_course_code :: string
  cs_title :: string
  cs_category :: string
  cs_difficulty :: string
  total_enrollments :: int
  completions :: int
  cs_dropouts :: int
  active_learners :: int
  completion_rate :: "rat option"
  cs_dropout_rate :: "rat option"

text \<open>\<^verbatim>\<open>e.user_id\<close> of a joined row, and \<^verbatim>\<open>CASE WHEN e.status = st THEN e.user_id END\<close>.\<close>

definition enrolled_case :: "course \<times> enrollment option \<Rightarrow> int option" where
  "enrolled_case r = map_option e_user_id (snd r)"

definition status_case :: "string \<Rightarrow> course \<times> enrollment option \<Rightarrow> int option" where
  "status_case st r =
     (if is_true (sql_eq (Option.bind (snd r) e_status) (Some st))
      then map_option e_user_id (snd r) else None)"

type_synonym course_key = "int \<times> string \<times> string \<times> string \<times> string"

definition summary_of_group :: "course_key \<times> (course \<times> enrollment option) list \<Rightarrow> sql_error + summary_row" where
  "summary_of_group kg =
     (case kg of ((cid, code, title, category, difficulty), g) \<Rightarrow>
        let total = count_distinct (map enrolled_case g);
            completed = count_distinct (map (status_case ''completed'') g);
            dropped = count_distinct (map (status_case ''dropped'') g);
            active = count_distinct (map (status_case ''active'') g)
        in case rate_expr completed total of
             Inl e \<Rightarrow> Inl e
           | Inr cr \<Rightarrow>
               (case rate_expr dropped total of
                  Inl e \<Rightarrow> Inl e
                | Inr dr \<Rightarrow>
                    Inr \<lparr>cs_course_id = cid, cs_course_code = code, cs_title = title,
                         cs_category = category, cs_difficulty = difficulty,
                         total_enrollments = total, completions = completed,
                         cs_dropouts = dropped, active_learners = active,
                         completion_rate = ROUND cr 2, cs_dropout_rate = ROUND dr 2\<rparr>))"

definition v_course_summary :: "course list \<Rightarrow> enrollment list \<Rightarrow> sql_error + summary_row list" where
  "v_course_summary courses enrollments =
     collect (map summary_of_group
       (group_by (\<lambda>r. (c_id (fst r), c_course_code (fst r), c_title (fst r),
                        c_category (fst r), c_difficulty (fst r)))
          (filter (\<lambda>r. is_true (sql_eq (c_is_active (fst r)) (Some True)))
             (left_join courses enrollments
                (\<lambda>c e. sql_eq (Some (c_id c)) (Some (e_course_id e)))))))"

section \<open>The view \<^verbatim>\<open>v_dropout_by_segment\<close>\<close>

text \<open>
  \<^verbatim>\<open>FLOOR(l.progress_percent / 10)\<close> is an integer-valued float; it is kept as an
  integer here.
\<close>

record segment_view_row =
  v_course_code :: string
  v_title :: string
  v_segment_start :: int
  v_segment_end :: int
  total_logs :: int
  v_dropout_count :: int
  v_dropout_rate :: "rat option"

definition view_row :: "(string \<times> string \<times> int) \<times> (course \<times> learning_log) list \<Rightarrow> sql_error + segment_view_row" where
  "view_row kg =
     (case kg of ((code, title, band), g) \<Rightarrow>
        let n = count_star g;
            d = count_star (filter (\<lambda>r. is_true (sql_eq (l_is_dropout (snd r)) (Some True))) g)
        in case sql_div (numeric (Some d)) (numeric (Some n)) of
             Inl e \<Rightarrow> Inl e
           | Inr q \<Rightarrow>
               Inr \<lparr>v_course_code = code, v_title = title,
                    v_segment_start = band * 10, v_segment_end = band * 10 + 10,
                    total_logs = n, v_dropout_count = d,
                    v_dropout_rate = ROUND (sql_mul q (Some 100)) 2\<rparr>)"

definition v_dropout_by_segment :: "course list \<Rightarrow> learning_log list \<Rightarrow> sql_error + segment_view_row list" where
  "v_dropout_by_segment courses learning_logs =
     (case collect (map view_row
             (group_by (\<lambda>r. (c_course_code (fst r), c_title (fst r),
                              \<lfloor>l_progress_percent (snd r) / 10\<rfloor>))
                (inner_join courses learning_logs
                   (\<lambda>c l. sql_eq (Some (c_id c)) (Some (l_course_id l)))))) of
        Inl e \<Rightarrow> Inl e
      | Inr rows \<Rightarrow> Inr (sort_key (\<lambda>r. (v_course_code r, v_segment_start r)) rows))"

section \<open>The dropout page of the frontend\<close>










record ChartDataset =
  label :: string
  data :: "rat list"

record ChartData =
  labels :: "string list"
  datasets :: "ChartDataset list"
  dropout_counts :: "int list"

definition Math_round :: "rat \<Rightarrow> int" where
  "Math_round x = \<lfloor>x + 1 / 2\<rfloor>"

text \<open>\<^verbatim>\<open>Math.max\<close> of no argument is \<^verbatim>\<open>-Infinity\<close>, here \<open>None\<close>.\<close>

definition Math_max :: "int list \<Rightarrow> int option" where
  "Math_max xs = (case xs of [] \<Rightarrow> None | x # ys \<Rightarrow> Some (fold max ys x))"

text \<open>\<^verbatim>\<open>indexOf\<close> gives the first index of the value, or -1.\<close>

fun indexOf :: "'a list \<Rightarrow> 'a \<Rightarrow> int" where
  "indexOf [] v = -1"
| "indexOf (x # xs) v =
     (if x = v then 0 else (let i = indexOf xs v in if i < 0 then -1 else i + 1))"

text \<open>Reading an array at an index; out of range is \<^verbatim>\<open>undefined\<close>, here \<open>None\<close>.\<close>

definition at_index :: "'a list \<Rightarrow> int \<Rightarrow> 'a option" where
  "at_index xs i = (if 0 \<le> i \<and> i < int (length xs) then Some (xs ! nat i) else None)"

definition rawDropoutRates :: "ChartData option \<Rightarrow> rat list" where
  "rawDropoutRates chartData =
     (case chartData of None \<Rightarrow> []
      | Some cd \<Rightarrow> (case datasets cd of [] \<Rightarrow> [] | d # ds \<Rightarrow> data d))"

definition dropoutRates :: "ChartData option \<Rightarrow> int list" where
  "dropoutRates chartData = map Math_round (rawDropoutRates chartData)"

definition isChartDataReady :: "ChartData option \<Rightarrow> bool" where
  "isChartDataReady chartData =
     (case chartData of None \<Rightarrow> False
      | Some cd \<Rightarrow> length (labels cd) \<noteq> 0 \<and> length (dropoutRates chartData) \<noteq> 0)"

definition maxDropoutRate :: "ChartData option \<Rightarrow> int option" where
  "maxDropoutRate chartData =
     (if isChartDataReady chartData then Math_max (dropoutRates chartData) else Some 1)"

text \<open>The match of \<^verbatim>\<open>/^(\d+)/\<close>: the leading run of digits, when there is one.\<close>

definition is_digit :: "char \<Rightarrow> bool" where
  "is_digit c = (c \<in> set ''0123456789'')"

definition simpleLabel :: "string \<Rightarrow> string" where
  "simpleLabel lbl =
     (let m = takeWhile is_digit lbl in if m = [] then lbl else m @ ''%'')"

definition simpleLabels :: "ChartData option \<Rightarrow> string list" where
  "simpleLabels chartData =
     (case chartData of None \<Rightarrow> [] | Some cd \<Rightarrow> map simpleLabel (labels cd))"

text \<open>
  The peak shown on the page, when the chart data is ready: the label
  \<^verbatim>\<open>simpleLabels[dropoutRates.indexOf(maxDropoutRate)]\<close> and \<^verbatim>\<open>maxDropoutRate\<close>.
\<close>

definition peakIndex :: "ChartData option \<Rightarrow> int" where
  "peakIndex chartData =
     (case maxDropoutRate chartData of None \<Rightarrow> -1
      | Some m \<Rightarrow> indexOf (dropoutRates chartData) m)"

definition peakInfo :: "ChartData option \<Rightarrow> (string option \<times> int option) option" where
  "peakInfo chartData =
     (if isChartDataReady chartData
      then Some (at_index (simpleLabels chartData) (peakIndex chartData),
                 maxDropoutRate chartData)
      else None)"

section \<open>The shared fetch wrapper\<close>

text \<open>
  \<^verbatim>\<open>fetchApi\<close> of the API service module. What the platform's \<^verbatim>\<open>fetch\<close> and
  \<^verbatim>\<open>response.json()\<close> do is a parameter: each either resolves, or rejects with a value
  of type \<open>'e\<close>. The wrapper catches nothing, so a rejection leaves it as it is.
\<close>

record ('e, 'a) Response =
  ok :: bool
  status :: int
  statusText :: string
  json :: "'e + 'a"

datatype 'e thrown = ApiError string int string | Rejected 'e

text \<open>The UTF-8 bytes of the fixed part of the error message, which ends in a colon and a space.\<close>

definition message_prefix :: string where
  "message_prefix =
     [CHR 0x41, CHR 0x50, CHR 0x49, CHR 0x20, CHR 0xEC, CHR 0x9A, CHR 0x94, CHR 0xEC,
      CHR 0xB2, CHR 0xAD, CHR 0x20, CHR 0xEC, CHR 0x8B, CHR 0xA4, CHR 0xED, CHR 0x8C,
      CHR 0xA8, CHR 0x3A, CHR 0x20]"

definition fetchApi :: "('u \<Rightarrow> 'o option \<Rightarrow> 'e + ('e, 'a) Response) \<Rightarrow> 'u \<Rightarrow> 'o option \<Rightarrow> 'e thrown + 'a" where
  "fetchApi fetch url options =
     (case fetch url options of
        Inl e \<Rightarrow> Inl (Rejected e)
      | Inr response \<Rightarrow>
          if \<not> ok response
          then Inl (ApiError (message_prefix @ statusText response)
                      (status response) (statusText response))
          else (case json response of
                  Inl e \<Rightarrow> Inl (Rejected e)
                | Inr parsed \<Rightarrow> Inr parsed))"

section \<open>Example data\<close>

text \<open>Logs of four users; the first three belong to course 1.\<close>

definition example_logs :: "learning_log list" where
  "example_logs =
     [\<lparr>l_user_id = 1, l_course_id = 1, l_progress_percent = 5, l_is_dropout = Some False\<rparr>,
      \<lparr>l_user_id = 1, l_course_id = 1, l_progress_percent = 35, l_is_dropout = Some True\<rparr>,
      \<lparr>l_user_id = 2, l_course_id = 1, l_progress_percent = 100, l_is_dropout = None\<rparr>,
      \<lparr>l_user_id = 3, l_course_id = 1, l_progress_percent = 95, l_is_dropout = Some True\<rparr>,
      \<lparr>l_user_id = 3, l_course_id = 1, l_progress_percent = 12, l_is_dropout = Some True\<rparr>,
      \<lparr>l_user_id = 4, l_course_id = 2, l_progress_percent = 50, l_is_dropout = Some True\<rparr>]"

text \<open>Course 1 of the example, and an active course nobody is enrolled in.\<close>

definition example_course :: course where
  "example_course =
     \<lparr>c_id = 1, c_course_code = ''PY101'', c_title = ''Python'', c_category = ''backend'',
      c_difficulty = ''beginner'', c_is_active = Some True\<rparr>"

definition empty_course :: course where
  "empty_course =
     \<lparr>c_id = 2, c_course_code = ''SQL201'', c_title = ''SQL'', c_category = ''data'',
      c_difficulty = ''intermediate'', c_is_active = Some True\<rparr>"

definition example_enrollments :: "enrollment list" where
  "example_enrollments =
     [\<lparr>e_user_id = 1, e_course_id = 1, e_status = Some ''dropped''\<rparr>,
      \<lparr>e_user_id = 2, e_course_id = 1, e_status = Some ''completed''\<rparr>,
      \<lparr>e_user_id = 3, e_course_id = 1, e_status = Some ''active''\<rparr>]"



text \<open>
  Chart data of two segments: 5 of 100 users drop out in the first, 3 of 10 in the second,
  so the rates are 5 and 30 percent.
\<close>

definition example_chart :: ChartData where
  "example_chart =
     \<lparr>labels = [''0-10%'', ''10-20%''],
      datasets = [\<lparr>label = ''dropout rate'', data = [5, 30]\<rparr>],
      dropout_counts = [5, 3]\<rparr>"

text \<open>
  Responses and a platform \<^verbatim>\<open>fetch\<close> for them: a failure, a success whose body parses,
  a success whose body does not parse, and a request that is rejected.
\<close>

definition not_found_response :: "(string, int) Response" where
  "not_found_response = \<lparr>ok = False, status = 404, statusText = ''Not Found'', json = Inr 0\<rparr>"

definition parsed_response :: "(string, int) Response" where
  "parsed_response = \<lparr>ok = True, status = 200, statusText = ''OK'', json = Inr 7\<rparr>"

definition unparsable_response :: "(string, int) Response" where
  "unparsable_response =
     \<lparr>ok = True, status = 200, statusText = ''OK'', json = Inl ''SyntaxError''\<rparr>"

definition example_fetch :: "string \<Rightarrow> unit option \<Rightarrow> string + (string, int) Response" where
  "example_fetch url options =
     (if url = ''/api/missing'' then Inr not_found_response
      else if url = ''/api/courses/'' then Inr parsed_response
      else if url = ''/api/html'' then Inr unparsable_response
      else Inl ''TypeError'')"

text \<open>Course 1 again, this time not active.\<close>

definition archived_course :: course where
  "archived_course =
     \<lparr>c_id = 1, c_course_code = ''PY101'', c_title = ''Python'', c_category = ''backend'',
      c_difficulty = ''beginner'', c_is_active = Some False\<rparr>"

text \<open>
  A course of \<open>n\<close> users with one log each, at 5 percent; the first \<open>d\<close> of them are
  flagged as dropping out there.
\<close>

definition cohort :: "nat \<Rightarrow> nat \<Rightarrow> learning_log list" where
  "cohort n d =
     map (\<lambda>i. \<lparr>l_user_id = int i, l_course_id = 1, l_progress_percent = 5,
                l_is_dropout = Some (i < d)\<rparr>) [0..<n]"

section \<open>Facts about joins and grouping\<close>

lemma set_non_null: "set (non_null vs) = {v. Some v \<in> set vs}"
  by (induction vs rule: non_null.induct) auto

lemma left_join_Cons:
  "left_join (x # xs) ys on =
     (let ms = filter (\<lambda>y. is_true (on x y)) ys
      in if ms = [] then [(x, None)] else map (\<lambda>y. (x, Some y)) ms) @ left_join xs ys on"
  by (simp add: left_join_def)

lemma left_join_Some_iff:
  "(x, Some y) \<in> set (left_join xs ys on) \<longleftrightarrow> x \<in> set xs \<and> y \<in> set ys \<and> is_true (on x y)"
  by (auto simp: left_join_def Let_def filter_empty_conv split: if_splits)

lemma left_join_fst: "(x, yo) \<in> set (left_join xs ys on) \<Longrightarrow> x \<in> set xs"
  by (auto simp: left_join_def Let_def split: if_splits)

lemma left_join_total: "x \<in> set xs \<Longrightarrow> \<exists>yo. (x, yo) \<in> set (left_join xs ys on)"
proof (induction xs)
  case Nil
  then show ?case by simp
next
  case (Cons a xs)
  show ?case
  proof (cases "x = a")
    case True
    show ?thesis
    proof (cases "filter (\<lambda>y. is_true (on a y)) ys")
      case Nil
      then show ?thesis using True by (auto simp: left_join_Cons Let_def)
    next
      case (Cons y ms)
      then have "(a, Some y) \<in> set (left_join (a # xs) ys on)"
        by (simp add: left_join_Cons Let_def)
      then show ?thesis using True by blast
    qed
  next
    case False
    with Cons obtain yo where "(x, yo) \<in> set (left_join xs ys on)" by auto
    then show ?thesis by (auto simp: left_join_Cons)
  qed
qed

lemma remdups_replicate_append:
  "0 < n \<Longrightarrow> remdups (replicate n a @ zs) = remdups (a # zs)"
  by (induction n) (auto)

lemma left_join_keys:
  "remdups (map (\<lambda>r. f (fst r)) (left_join xs ys on)) = remdups (map f xs)"
proof (induction xs)
  case Nil
  then show ?case by (simp add: left_join_def)
next
  case (Cons x xs)
  define blk where "blk = (let ms = filter (\<lambda>y. is_true (on x y)) ys
      in if ms = [] then [(x, None)] else map (\<lambda>y. (x, Some y)) ms)"
  have blk: "map (\<lambda>r. f (fst r)) blk = replicate (length blk) (f x)" "0 < length blk"
    by (auto simp: blk_def Let_def map_replicate_const comp_def)
  have "remdups (map (\<lambda>r. f (fst r)) (left_join (x # xs) ys on))
      = remdups (replicate (length blk) (f x) @ map (\<lambda>r. f (fst r)) (left_join xs ys on))"
    using blk(1) by (simp add: left_join_Cons blk_def [symmetric])
  also have "\<dots> = remdups (f x # map (\<lambda>r. f (fst r)) (left_join xs ys on))"
    using blk(2) by (rule remdups_replicate_append)
  also have "\<dots> = remdups (map f (x # xs))"
    using Cons.IH
    by (metis (no_types, lifting) list.simps(9) remdups.simps(2) set_remdups)
  finally show ?case .
qed

lemma segments_eq: "segments = [0, 10, 20, 30, 40, 50, 60, 70, 80, 90]"
  by (simp add: segments_def generate_series.simps)

lemma segment_join_keys:
  "remdups (map (\<lambda>r. fst (fst r)) (segment_join logs p)) = segments"
proof -
  have "remdups (map (\<lambda>r. fst (fst r)) (segment_join logs p)) = remdups segments"
    unfolding segment_join_def
    by (simp only: left_join_keys [where f = fst] left_join_keys [where f = "\<lambda>s. s"] list.map_ident)
  then show ?thesis by (simp add: segments_eq)
qed

lemma segment_analysis_eq:
  "segment_analysis logs p =
     map (\<lambda>s. \<lparr>seg_start = s, seg_end = s + 10,
                sa_users_reached = int (length (reached_ids logs p s)),
                dropouts = int (length (dropout_ids logs p s))\<rparr>) segments"
  by (simp add: segment_analysis_def group_by_def segment_join_keys count_distinct_def
      reached_ids_def dropout_ids_def segment_group_def)

section \<open>The shape of the segment analysis\<close>

lemma collect_Inr: "collect (map (\<lambda>x. Inr (f x)) xs) = Inr (map f xs)"
  by (induction xs) simp_all

lemma rate_expr_eq:
  "rate_expr d u = Inr (if u = 0 then None else Some (of_int d / of_int u * 100))"
  by (simp add: rate_expr_def sql_div_def sql_mul_def numeric_def NULLIF_def)

lemma result_row_eq:
  "result_row sa =
     Inr \<lparr>segment_start = seg_start sa, segment_end = seg_end sa,
          users_reached = sa_users_reached sa, dropout_count = dropouts sa,
          dropout_rate =
            ROUND (if sa_users_reached sa = 0 then None
                   else Some (of_int (dropouts sa) / of_int (sa_users_reached sa) * 100)) 2,
          risk_level =
            risk_case (if sa_users_reached sa = 0 then None
                       else Some (of_int (dropouts sa) / of_int (sa_users_reached sa) * 100))\<rparr>"
  by (simp add: result_row_def rate_expr_eq)

lemma analyze_course_dropout_eq:
  "analyze_course_dropout logs p =
     Inr (map (\<lambda>s.
       \<lparr>segment_start = s, segment_end = s + 10,
        users_reached = int (length (reached_ids logs p s)),
        dropout_count = int (length (dropout_ids logs p s)),
        dropout_rate =
          ROUND (if length (reached_ids logs p s) = 0 then None
                 else Some (of_int (int (length (dropout_ids logs p s)))
                            / of_int (int (length (reached_ids logs p s))) * 100)) 2,
        risk_level =
          risk_case (if length (reached_ids logs p s) = 0 then None
                     else Some (of_int (int (length (dropout_ids logs p s)))
                                / of_int (int (length (reached_ids logs p s))) * 100))\<rparr>)
       segments)"
proof -
  let ?f = "\<lambda>sa. \<lparr>segment_start = seg_start sa, segment_end = seg_end sa,
          users_reached = sa_users_reached sa, dropout_count = dropouts sa,
          dropout_rate =
            ROUND (if sa_users_reached sa = 0 then None
                   else Some (of_int (dropouts sa) / of_int (sa_users_reached sa) * 100)) 2,
          risk_level =
            risk_case (if sa_users_reached sa = 0 then None
                       else Some (of_int (dropouts sa) / of_int (sa_users_reached sa) * 100))\<rparr>"
  have rr: "result_row = (\<lambda>sa. Inr (?f sa))"
    by (rule ext) (rule result_row_eq)
  have c: "collect (map result_row (segment_analysis logs p)) = Inr (map ?f (segment_analysis logs p))"
    unfolding rr by (rule collect_Inr)
  have keys: "map segment_start (map ?f (segment_analysis logs p)) = segments"
    by (simp add: segment_analysis_eq comp_def)
  have "sorted (map segment_start (map ?f (segment_analysis logs p)))"
    unfolding keys by (simp add: segments_eq)
  then have s: "sort_key segment_start (map ?f (segment_analysis logs p)) = map ?f (segment_analysis logs p)"
    by (rule sort_key_id_if_sorted)
  show ?thesis
    unfolding analyze_course_dropout_def c
    by (simp add: s) (simp add: segment_analysis_eq comp_def)
qed

lemma dropout_case_reached:
  assumes "r \<in> set (segment_join logs p)" and "dropout_case r = Some v"
  shows "reached_case r = Some v"
proof -
  obtain s u l where r: "r = ((s, u), l)" by (metis surj_pair)
  from assms(2) obtain l' where l: "l = Some l'" and v: "v = l_user_id l'"
    by (cases l) (auto simp: dropout_case_def r split: if_splits)
  from assms(1) have "is_true (sql_and (sql_eq (Some (l_user_id l')) (map_option u_user_id u))
                           (sql_eq (Some (l_course_id l')) (Some p)))"
    unfolding segment_join_def r l by (auto simp: left_join_Some_iff)
  then have "map_option u_user_id u = Some (l_user_id l')"
    by (cases u) (auto simp: is_true_def sql_and_def sql_eq_def split: if_splits)
  then show ?thesis by (simp add: reached_case_def r v)
qed

lemma dropout_ids_subset: "set (dropout_ids logs p s) \<subseteq> set (reached_ids logs p s)"
proof
  fix v assume "v \<in> set (dropout_ids logs p s)"
  then obtain r where r: "r \<in> set (segment_group logs p s)" and d: "dropout_case r = Some v"
    by (auto simp: dropout_ids_def set_non_null)
  from r have "r \<in> set (segment_join logs p)" by (simp add: segment_group_def)
  then have "reached_case r = Some v" using d by (rule dropout_case_reached)
  with r show "v \<in> set (reached_ids logs p s)"
    by (force simp: reached_ids_def set_non_null)
qed

lemma dropout_ids_le: "length (dropout_ids logs p s) \<le> length (reached_ids logs p s)"
proof -
  have "card (set (dropout_ids logs p s)) \<le> card (set (reached_ids logs p s))"
    by (rule card_mono) (simp_all add: dropout_ids_subset)
  moreover have "distinct (dropout_ids logs p s)" "distinct (reached_ids logs p s)"
    by (simp_all add: dropout_ids_def reached_ids_def)
  ultimately show ?thesis by (simp add: distinct_card)
qed

lemma reached_ids_iff:
  assumes "s \<in> set segments"
  shows "v \<in> set (reached_ids logs p s) \<longleftrightarrow>
     (\<exists>u\<in>set (user_max_progress logs p).
        u_user_id u = v \<and> is_true (sql_ge (u_max_progress u) (Some (of_int s))))"
proof
  assume "v \<in> set (reached_ids logs p s)"
  then obtain r where r: "r \<in> set (segment_join logs p)" "fst (fst r) = s" "reached_case r = Some v"
    by (auto simp: reached_ids_def set_non_null segment_group_def)
  obtain s0 uo l where r0: "r = ((s0, uo), l)" by (metis surj_pair)
  from r(3) obtain u where uo: "uo = Some u" and v: "u_user_id u = v"
    by (cases uo) (auto simp: reached_case_def r0)
  from r(2) have req: "r = ((s, Some u), l)" by (simp add: r0 uo)
  from r(1) have "(s, Some u) \<in> set (left_join segments (user_max_progress logs p)
          (\<lambda>s u. sql_ge (u_max_progress u) (Some (of_int s))))"
    unfolding segment_join_def req by (rule left_join_fst)
  then show "\<exists>u\<in>set (user_max_progress logs p).
        u_user_id u = v \<and> is_true (sql_ge (u_max_progress u) (Some (of_int s)))"
    using v by (auto simp: left_join_Some_iff)
next
  assume "\<exists>u\<in>set (user_max_progress logs p).
        u_user_id u = v \<and> is_true (sql_ge (u_max_progress u) (Some (of_int s)))"
  then obtain u where u: "u \<in> set (user_max_progress logs p)" "u_user_id u = v"
      "is_true (sql_ge (u_max_progress u) (Some (of_int s)))" by blast
  with assms have "(s, Some u) \<in> set (left_join segments (user_max_progress logs p)
          (\<lambda>s u. sql_ge (u_max_progress u) (Some (of_int s))))"
    by (simp add: left_join_Some_iff)
  then obtain lo where "((s, Some u), lo) \<in> set (segment_join logs p)"
    unfolding segment_join_def using left_join_total by fast
  then have "((s, Some u), lo) \<in> set (segment_group logs p s)"
    by (simp add: segment_group_def)
  moreover have "reached_case ((s, Some u), lo) = Some v"
    by (simp add: reached_case_def u(2))
  ultimately show "v \<in> set (reached_ids logs p s)"
    by (force simp: reached_ids_def set_non_null)
qed

lemma reached_ids_antimono:
  assumes "s \<in> set segments" "s' \<in> set segments" "s \<le> s'"
  shows "length (reached_ids logs p s') \<le> length (reached_ids logs p s)"
proof -
  have "set (reached_ids logs p s') \<subseteq> set (reached_ids logs p s)"
  proof
    fix v assume "v \<in> set (reached_ids logs p s')"
    then obtain u where u: "u \<in> set (user_max_progress logs p)" "u_user_id u = v"
      "is_true (sql_ge (u_max_progress u) (Some (of_int s')))"
      using assms(2) by (auto simp: reached_ids_iff)
    from u(3) assms(3) have "is_true (sql_ge (u_max_progress u) (Some (of_int s)))"
      by (cases "u_max_progress u") (auto simp: is_true_def sql_ge_def)
    with u show "v \<in> set (reached_ids logs p s)"
      using assms(1) by (auto simp: reached_ids_iff)
  qed
  then have "card (set (reached_ids logs p s')) \<le> card (set (reached_ids logs p s))"
    by (intro card_mono) simp_all
  moreover have "distinct (reached_ids logs p s')" "distinct (reached_ids logs p s)"
    by (simp_all add: reached_ids_def)
  ultimately show ?thesis by (simp add: distinct_card)
qed

section \<open>The example, evaluated\<close>

lemma example_users_reached:
  "map users_reached (projr (analyze_course_dropout example_logs 1)) = [3, 3, 3, 3, 2, 2, 2, 2, 2, 2]"
  by code_simp

lemma example_dropout_count:
  "map dropout_count (projr (analyze_course_dropout example_logs 1)) = [0, 1, 0, 1, 0, 0, 0, 0, 0, 1]"
  by code_simp

section \<open>The funnel\<close>

text \<open>
  C2. For every course, the \<^verbatim>\<open>users_reached\<close> values that \<^verbatim>\<open>analyze_course_dropout\<close> returns
  for the segments starting at 0, 10, ..., 90, in that order, never increase. The query
  also never raises.
\<close>

theorem users_reached_non_increasing:
  "\<exists>rows. analyze_course_dropout logs p = Inr rows
      \<and> map segment_start rows = [0, 10, 20, 30, 40, 50, 60, 70, 80, 90]
      \<and> sorted_wrt (\<ge>) (map users_reached rows)"
proof -
  have "sorted_wrt (<) segments" by (simp add: segments_eq)
  then have "sorted_wrt (\<lambda>s s'. length (reached_ids logs p s') \<le> length (reached_ids logs p s)) segments"
    by (rule sorted_wrt_mono_rel [rotated]) (simp add: reached_ids_antimono)
  then have "sorted_wrt (\<ge>) (map (\<lambda>s. int (length (reached_ids logs p s))) segments)"
    by (simp add: sorted_wrt_map)
  then show ?thesis
    by (simp add: analyze_course_dropout_eq comp_def) (simp add: segments_eq)
qed

theorem users_reached_non_increasing_witness:
  "\<exists>rows. analyze_course_dropout example_logs 1 = Inr rows
      \<and> map users_reached rows = [3, 3, 3, 3, 2, 2, 2, 2, 2, 2]
      \<and> sorted_wrt (\<ge>) (map users_reached rows)"
  using users_reached_non_increasing [of example_logs 1] example_users_reached by auto

text \<open>
  C9. For every course and every segment, \<^verbatim>\<open>users_reached\<close> is at least the
  \<^verbatim>\<open>dropout_count\<close> of the same segment: every user counted as dropping out in a
  segment is joined through a row of \<^verbatim>\<open>user_max_progress\<close> that reached it.
\<close>

theorem users_reached_ge_dropout_count:
  "\<exists>rows. analyze_course_dropout logs p = Inr rows \<and> length rows = 10
      \<and> (\<forall>r\<in>set rows. dropout_count r \<le> users_reached r)"
  by (simp add: analyze_course_dropout_eq dropout_ids_le) (simp add: segments_eq)

theorem users_reached_ge_dropout_count_witness:
  "\<exists>rows. analyze_course_dropout example_logs 1 = Inr rows
      \<and> map users_reached rows = [3, 3, 3, 3, 2, 2, 2, 2, 2, 2]
      \<and> map dropout_count rows = [0, 1, 0, 1, 0, 0, 0, 0, 0, 1]
      \<and> rows ! 3 \<in> set rows
      \<and> dropout_count (rows ! 3) \<le> users_reached (rows ! 3)"
proof -
  from users_reached_ge_dropout_count [of example_logs 1]
  obtain rows where rows: "analyze_course_dropout example_logs 1 = Inr rows" "length rows = 10"
    and le: "\<forall>r\<in>set rows. dropout_count r \<le> users_reached r" by blast
  from rows(2) have mem: "rows ! 3 \<in> set rows" by simp
  with le have "dropout_count (rows ! 3) \<le> users_reached (rows ! 3)" by blast
  with rows mem example_users_reached example_dropout_count show ?thesis by auto
qed

section \<open>Dropout rate and risk level\<close>

lemma round_half_away_range:
  assumes "0 \<le> x" "x \<le> 100"
  shows "0 \<le> round_half_away x 2 \<and> round_half_away x 2 \<le> 100"
proof (cases "x = 0")
  case True
  then show ?thesis by (simp add: round_half_away_def)
next
  case False
  with assms have pos: "0 < x" by simp
  have "x * 100 + 1 / 2 < of_int 10001" using assms(2) by simp
  then have "\<lfloor>x * 100 + 1 / 2\<rfloor> < 10001" by (simp only: floor_less_iff)
  then have up: "\<lfloor>x * 100 + 1 / 2\<rfloor> \<le> 10000" by simp
  have "0 \<le> x * 100 + 1 / 2" using assms(1) by simp
  then have lo: "0 \<le> \<lfloor>x * 100 + 1 / 2\<rfloor>" by simp
  have eq: "round_half_away x 2 = of_int \<lfloor>x * 100 + 1 / 2\<rfloor> / 100"
    using pos by (simp add: round_half_away_def)
  from up have "(of_int \<lfloor>x * 100 + 1 / 2\<rfloor> :: rat) \<le> 10000"
    by (metis of_int_le_iff of_int_numeral)
  moreover from lo have "(0::rat) \<le> of_int \<lfloor>x * 100 + 1 / 2\<rfloor>" by simp
  ultimately show ?thesis unfolding eq by simp
qed

lemma ratio_range:
  fixes d u :: nat
  assumes "d \<le> u" "u \<noteq> 0"
  shows "0 \<le> (of_int (int d) :: rat) / of_int (int u) * 100"
    and "(of_int (int d) :: rat) / of_int (int u) * 100 \<le> 100"
proof -
  show "0 \<le> (of_int (int d) :: rat) / of_int (int u) * 100" by simp
  have "(of_int (int d) :: rat) \<le> of_int (int u)" using assms(1) by simp
  moreover have "(0::rat) < of_int (int u)" using assms(2) by simp
  ultimately have "(of_int (int d) :: rat) / of_int (int u) \<le> 1"
    by (simp add: divide_le_eq_1)
  then have "(of_int (int d) :: rat) / of_int (int u) * 100 \<le> 1 * 100"
    by (rule mult_right_mono) simp
  then show "(of_int (int d) :: rat) / of_int (int u) * 100 \<le> 100" by simp
qed

lemma example2_users_reached:
  "map users_reached (projr (analyze_course_dropout example_logs 2)) = [1, 1, 1, 1, 1, 1, 0, 0, 0, 0]"
  by code_simp

lemma example2_dropout_count:
  "map dropout_count (projr (analyze_course_dropout example_logs 2)) = [0, 0, 0, 0, 0, 1, 0, 0, 0, 0]"
  by code_simp

lemma nth_of_map: "map f xs = ys \<Longrightarrow> i < length xs \<Longrightarrow> f (xs ! i) = ys ! i"
  by auto

text \<open>
  C1, as the code has it. The rate is \<^verbatim>\<open>ROUND(dropouts::numeric / NULLIF(users_reached, 0) * 100, 2)\<close>:
  for every course and every segment, the \<^verbatim>\<open>dropout_rate\<close> returned by
  \<^verbatim>\<open>analyze_course_dropout\<close> is NULL when \<^verbatim>\<open>users_reached\<close> is 0 (the guard avoids the
  division by zero, and no error is raised), and otherwise it is the ratio of the two counts
  times 100, rounded to two decimals, and lies between 0 and 100.
\<close>

theorem dropout_rate_null_or_in_range:
  "\<exists>rows. analyze_course_dropout logs p = Inr rows \<and> length rows = 10
      \<and> (\<forall>r\<in>set rows.
            (users_reached r = 0 \<longrightarrow> dropout_rate r = None)
          \<and> (users_reached r \<noteq> 0 \<longrightarrow>
               dropout_rate r =
                 Some (round_half_away
                         (of_int (dropout_count r) / of_int (users_reached r) * 100) 2)
             \<and> 0 \<le> round_half_away
                         (of_int (dropout_count r) / of_int (users_reached r) * 100) 2
             \<and> round_half_away
                   (of_int (dropout_count r) / of_int (users_reached r) * 100) 2 \<le> 100))"
proof -
  have "0 \<le> round_half_away (of_int (int (length (dropout_ids logs p s)))
                 / of_int (int (length (reached_ids logs p s))) * 100) 2
      \<and> round_half_away (of_int (int (length (dropout_ids logs p s)))
                 / of_int (int (length (reached_ids logs p s))) * 100) 2 \<le> 100"
    if "length (reached_ids logs p s) \<noteq> 0" for s
    by (rule round_half_away_range) (rule ratio_range [OF dropout_ids_le that])+
  then show ?thesis
    by (simp add: analyze_course_dropout_eq ROUND_def) (simp add: segments_eq)
qed

theorem dropout_rate_null_or_in_range_witness:
  "\<exists>rows. analyze_course_dropout example_logs 2 = Inr rows
      \<and> rows ! 6 \<in> set rows \<and> users_reached (rows ! 6) = 0 \<and> dropout_rate (rows ! 6) = None
      \<and> rows ! 5 \<in> set rows \<and> users_reached (rows ! 5) = 1 \<and> dropout_count (rows ! 5) = 1
      \<and> dropout_rate (rows ! 5) = Some 100"
proof -
  from dropout_rate_null_or_in_range [of example_logs 2]
  obtain rows where rows: "analyze_course_dropout example_logs 2 = Inr rows" "length rows = 10"
    and all: "\<forall>r\<in>set rows.
            (users_reached r = 0 \<longrightarrow> dropout_rate r = None)
          \<and> (users_reached r \<noteq> 0 \<longrightarrow>
               dropout_rate r =
                 Some (round_half_away
                         (of_int (dropout_count r) / of_int (users_reached r) * 100) 2)
             \<and> 0 \<le> round_half_away
                         (of_int (dropout_count r) / of_int (users_reached r) * 100) 2
             \<and> round_half_away
                   (of_int (dropout_count r) / of_int (users_reached r) * 100) 2 \<le> 100)" by blast
  from rows(2) have mem: "rows ! 6 \<in> set rows" "rows ! 5 \<in> set rows" by simp_all
  have u: "map users_reached rows = [1, 1, 1, 1, 1, 1, 0, 0, 0, 0]"
    and d: "map dropout_count rows = [0, 0, 0, 0, 0, 1, 0, 0, 0, 0]"
    using example2_users_reached example2_dropout_count by (simp_all add: rows(1))
  have u6: "users_reached (rows ! 6) = 0" and u5: "users_reached (rows ! 5) = 1"
    using nth_of_map [OF u, of 6] nth_of_map [OF u, of 5] rows(2) by simp_all
  have d5: "dropout_count (rows ! 5) = 1"
    using nth_of_map [OF d, of 5] rows(2) by simp
  from all mem(1) u6 have "dropout_rate (rows ! 6) = None" by blast
  moreover from all mem(2) u5 have "dropout_rate (rows ! 5) =
      Some (round_half_away (of_int (dropout_count (rows ! 5)) / of_int (users_reached (rows ! 5)) * 100) 2)"
    by force
  then have "dropout_rate (rows ! 5) = Some (round_half_away 100 2)"
    unfolding u5 d5 by simp
  moreover have "round_half_away 100 2 = 100" by code_simp
  ultimately show ?thesis using rows(1) mem u6 u5 d5 by simp
qed

text \<open>
  C1 as stated asks for a rate of 0, never NULL, when \<^verbatim>\<open>users_reached\<close> is 0. Course 2 of
  the example has one user, who drops out at 50 percent: the four segments from 60 on are
  reached by nobody and their rate is NULL, not 0.
\<close>

theorem dropout_rate_zero_counterexample:
  "analyze_course_dropout example_logs 2 =
     Inr [\<lparr>segment_start = 0, segment_end = 10, users_reached = 1,
            dropout_count = 0, dropout_rate = Some 0, risk_level = ''low''\<rparr>,
          \<lparr>segment_start = 10, segment_end = 20, users_reached = 1,
            dropout_count = 0, dropout_rate = Some 0, risk_level = ''low''\<rparr>,
          \<lparr>segment_start = 20, segment_end = 30, users_reached = 1,
            dropout_count = 0, dropout_rate = Some 0, risk_level = ''low''\<rparr>,
          \<lparr>segment_start = 30, segment_end = 40, users_reached = 1,
            dropout_count = 0, dropout_rate = Some 0, risk_level = ''low''\<rparr>,
          \<lparr>segment_start = 40, segment_end = 50, users_reached = 1,
            dropout_count = 0, dropout_rate = Some 0, risk_level = ''low''\<rparr>,
          \<lparr>segment_start = 50, segment_end = 60, users_reached = 1,
            dropout_count = 1, dropout_rate = Some 100, risk_level = ''critical''\<rparr>,
          \<lparr>segment_start = 60, segment_end = 70, users_reached = 0,
            dropout_count = 0, dropout_rate = None, risk_level = ''low''\<rparr>,
          \<lparr>segment_start = 70, segment_end = 80, users_reached = 0,
            dropout_count = 0, dropout_rate = None, risk_level = ''low''\<rparr>,
          \<lparr>segment_start = 80, segment_end = 90, users_reached = 0,
            dropout_count = 0, dropout_rate = None, risk_level = ''low''\<rparr>,
          \<lparr>segment_start = 90, segment_end = 100, users_reached = 0,
            dropout_count = 0, dropout_rate = None, risk_level = ''low''\<rparr>]
   \<and> users_reached (projr (analyze_course_dropout example_logs 2) ! 6) = 0
   \<and> dropout_rate (projr (analyze_course_dropout example_logs 2) ! 6) \<noteq> Some 0"
  by code_simp

section \<open>The segments\<close>

lemma group_by_iff:
  "(k, g) \<in> set (group_by key rows) \<longleftrightarrow> k \<in> key ` set rows \<and> g = filter (\<lambda>r. key r = k) rows"
  by (auto simp: group_by_def)

lemma group_by_nonempty: "(k, g) \<in> set (group_by key rows) \<Longrightarrow> g \<noteq> []"
  by (auto simp: group_by_iff filter_empty_conv)

lemma non_null_map_Some: "non_null (map (\<lambda>x. Some (f x)) g) = map f g"
  by (induction g) simp_all

lemma sql_max_ge_iff:
  "is_true (sql_ge (sql_max (map (\<lambda>x. Some (f x)) g)) (Some a)) \<longleftrightarrow> (\<exists>x\<in>set g. a \<le> f x)"
proof (cases g)
  case Nil
  then show ?thesis by (simp add: sql_max_def sql_ge_def is_true_def)
next
  case (Cons y ys)
  have "sql_max (map (\<lambda>x. Some (f x)) g) = Some (Max (set (map f g)))"
    unfolding sql_max_def non_null_map_Some Cons
    using Max.set_eq_fold [of "f y" "map f ys"] by simp
  moreover have "a \<le> Max (set (map f g)) \<longleftrightarrow> (\<exists>b\<in>set (map f g). a \<le> b)"
    by (rule Max_ge_iff) (simp_all add: Cons)
  ultimately show ?thesis by (auto simp: sql_ge_def is_true_def)
qed

lemma user_max_progress_iff:
  "(\<exists>u\<in>set (user_max_progress logs p).
      u_user_id u = v \<and> is_true (sql_ge (u_max_progress u) (Some a)))
   \<longleftrightarrow> (\<exists>l\<in>set logs. l_course_id l = p \<and> l_user_id l = v \<and> a \<le> l_progress_percent l)"
proof
  assume "\<exists>u\<in>set (user_max_progress logs p).
      u_user_id u = v \<and> is_true (sql_ge (u_max_progress u) (Some a))"
  then obtain uid g where g: "(uid, g) \<in> set (group_by l_user_id (filter (\<lambda>l. l_course_id l = p) logs))"
    and "uid = v" and "is_true (sql_ge (sql_max (map (\<lambda>l. Some (l_progress_percent l)) g)) (Some a))"
    by (auto simp: user_max_progress_def)
  then obtain l where "l \<in> set g" "a \<le> l_progress_percent l" "uid = v"
    by (auto simp: sql_max_ge_iff)
  with g show "\<exists>l\<in>set logs. l_course_id l = p \<and> l_user_id l = v \<and> a \<le> l_progress_percent l"
    by (auto simp: group_by_iff)
next
  assume "\<exists>l\<in>set logs. l_course_id l = p \<and> l_user_id l = v \<and> a \<le> l_progress_percent l"
  then obtain l where l: "l \<in> set logs" "l_course_id l = p" "l_user_id l = v" "a \<le> l_progress_percent l"
    by blast
  let ?fl = "filter (\<lambda>l. l_course_id l = p) logs"
  let ?g = "filter (\<lambda>r. l_user_id r = v) ?fl"
  have g: "(v, ?g) \<in> set (group_by l_user_id ?fl)"
    using l by (auto simp: group_by_iff)
  have "l \<in> set ?g" using l by simp
  with l(4) have "is_true (sql_ge (sql_max (map (\<lambda>l. Some (l_progress_percent l)) ?g)) (Some a))"
    unfolding sql_max_ge_iff by blast
  with g show "\<exists>u\<in>set (user_max_progress logs p).
      u_user_id u = v \<and> is_true (sql_ge (u_max_progress u) (Some a))"
    unfolding user_max_progress_def by force
qed

lemma reached_ids_logs:
  assumes "s \<in> set segments"
  shows "set (reached_ids logs p s) =
     {v. \<exists>l\<in>set logs. l_course_id l = p \<and> l_user_id l = v \<and> of_int s \<le> l_progress_percent l}"
  using assms by (auto simp: reached_ids_iff user_max_progress_iff)

lemma length_reached_ids:
  assumes "s \<in> set segments"
  shows "int (length (reached_ids logs p s)) =
     int (card {v. \<exists>l\<in>set logs. l_course_id l = p \<and> l_user_id l = v \<and> of_int s \<le> l_progress_percent l})"
proof -
  have "distinct (reached_ids logs p s)" by (simp add: reached_ids_def)
  then have "length (reached_ids logs p s) = card (set (reached_ids logs p s))"
    by (simp add: distinct_card)
  then show ?thesis by (simp add: reached_ids_logs [OF assms])
qed

lemma analyze_segments:
  "\<exists>rows. analyze_course_dropout logs p = Inr rows
     \<and> map (\<lambda>r. (segment_start r, segment_end r)) rows =
         [(0, 10), (10, 20), (20, 30), (30, 40), (40, 50), (50, 60), (60, 70), (70, 80),
          (80, 90), (90, 100)]
     \<and> (\<forall>r\<in>set rows.
          users_reached r =
            int (card {v. \<exists>l\<in>set logs. l_course_id l = p \<and> l_user_id l = v
                          \<and> of_int (segment_start r) \<le> l_progress_percent l})
        \<and> (\<forall>l\<in>set logs. l_course_id l = p \<and> l_progress_percent l = 100 \<longrightarrow>
              l_user_id l \<in> set (reached_ids logs p (segment_start r))
            \<and> users_reached r = int (length (reached_ids logs p (segment_start r)))))"
proof -
  have a: "l_user_id l \<in> set (reached_ids logs p s)"
    if "s \<in> set segments" "l \<in> set logs" "l_course_id l = p" "l_progress_percent l = 100" for s l
  proof -
    from that(1) have "s \<le> 100" by (auto simp: segments_eq)
    then have "(of_int s :: rat) \<le> 100" by (metis of_int_le_iff of_int_numeral)
    with that show ?thesis by (auto simp: reached_ids_logs)
  qed
  show ?thesis
    unfolding analyze_course_dropout_eq
    apply (rule exI, intro conjI, rule refl)
     apply (simp add: comp_def segments_eq)
    apply (auto simp: length_reached_ids a)
    done
qed

lemma inner_join_iff:
  "(x, y) \<in> set (inner_join xs ys on) \<longleftrightarrow> x \<in> set xs \<and> y \<in> set ys \<and> is_true (on x y)"
  by (auto simp: inner_join_def)

lemma collect_map_Inr:
  "(\<And>x. x \<in> set xs \<Longrightarrow> f x = Inr (g x)) \<Longrightarrow> collect (map f xs) = Inr (map g xs)"
  by (induction xs) simp_all

lemma band_in_segments:
  fixes x :: rat
  assumes "0 \<le> x" "x < 100"
  shows "\<lfloor>x / 10\<rfloor> * 10 \<in> set segments"
proof -
  have "0 \<le> x / 10" using assms(1) by simp
  then have lo: "0 \<le> \<lfloor>x / 10\<rfloor>" by simp
  have "x / 10 < of_int 10" using assms(2) by simp
  then have up: "\<lfloor>x / 10\<rfloor> < 10" by (simp only: floor_less_iff)
  define k where "k = \<lfloor>x / 10\<rfloor>"
  from lo up have "0 \<le> k" "k < 10" by (simp_all add: k_def)
  then have "k = 0 \<or> k = 1 \<or> k = 2 \<or> k = 3 \<or> k = 4 \<or> k = 5 \<or> k = 6 \<or> k = 7 \<or> k = 8 \<or> k = 9"
    by arith
  then show ?thesis unfolding k_def [symmetric] by (auto simp: segments_eq)
qed

lemma view_row_eq:
  assumes "g \<noteq> []"
  shows "\<exists>n d rate. view_row ((code, title, band), g) =
     Inr \<lparr>v_course_code = code, v_title = title,
          v_segment_start = band * 10, v_segment_end = band * 10 + 10,
          total_logs = n, v_dropout_count = d, v_dropout_rate = rate\<rparr>"
  using assms
  by (simp add: view_row_def sql_div_def numeric_def count_star_def Let_def)

lemma view_rows:
  "\<exists>vrows. v_dropout_by_segment courses logs = Inr vrows
     \<and> (\<forall>r\<in>set vrows.
           v_segment_end r = v_segment_start r + 10
         \<and> (\<exists>c\<in>set courses. \<exists>l\<in>set logs.
               c_id c = l_course_id l \<and> v_course_code r = c_course_code c
             \<and> v_title r = c_title c
             \<and> v_segment_start r = \<lfloor>l_progress_percent l / 10\<rfloor> * 10))
     \<and> (\<forall>c\<in>set courses. \<forall>l\<in>set logs. c_id c = l_course_id l \<longrightarrow>
           (\<exists>r\<in>set vrows.
               v_course_code r = c_course_code c \<and> v_title r = c_title c
             \<and> v_segment_start r = \<lfloor>l_progress_percent l / 10\<rfloor> * 10))"
proof -
  define J where "J = inner_join courses logs (\<lambda>c l. sql_eq (Some (c_id c)) (Some (l_course_id l)))"
  define key :: "course \<times> learning_log \<Rightarrow> string \<times> string \<times> int"
    where "key = (\<lambda>r. (c_course_code (fst r), c_title (fst r), \<lfloor>l_progress_percent (snd r) / 10\<rfloor>))"
  define G where "G = group_by key J"
  define vr where "vr = (\<lambda>kg. projr (view_row kg))"
  have J: "(c, l) \<in> set J \<longleftrightarrow> c \<in> set courses \<and> l \<in> set logs \<and> c_id c = l_course_id l" for c l
    by (auto simp: J_def inner_join_iff is_true_def sql_eq_def)
  have vr: "view_row kg = Inr (vr kg)" if "kg \<in> set G" for kg
  proof -
    obtain code title band g where kg: "kg = ((code, title, band), g)" by (metis surj_pair)
    with that have "g \<noteq> []" unfolding G_def by (auto dest: group_by_nonempty)
    from view_row_eq [OF this, of code title band] show ?thesis
      by (auto simp: vr_def kg)
  qed
  have fields: "v_course_code (vr ((code, title, band), g)) = code
      \<and> v_title (vr ((code, title, band), g)) = title
      \<and> v_segment_start (vr ((code, title, band), g)) = band * 10
      \<and> v_segment_end (vr ((code, title, band), g)) = band * 10 + 10"
    if "((code, title, band), g) \<in> set G" for code title band g
  proof -
    from that have "g \<noteq> []" unfolding G_def by (auto dest: group_by_nonempty)
    from view_row_eq [OF this, of code title band] show ?thesis
      by (auto simp: vr_def)
  qed
  have c: "collect (map view_row G) = Inr (map vr G)"
    by (rule collect_map_Inr) (rule vr)
  have eq: "v_dropout_by_segment courses logs =
      Inr (sort_key (\<lambda>r. (v_course_code r, v_segment_start r)) (map vr G))"
    unfolding v_dropout_by_segment_def
    by (simp add: c J_def [symmetric] key_def [symmetric] G_def [symmetric])
  have 1: "v_segment_end r = v_segment_start r + 10
         \<and> (\<exists>c\<in>set courses. \<exists>l\<in>set logs.
               c_id c = l_course_id l \<and> v_course_code r = c_course_code c
             \<and> v_title r = c_title c
             \<and> v_segment_start r = \<lfloor>l_progress_percent l / 10\<rfloor> * 10)"
    if "r \<in> set (map vr G)" for r
  proof -
    from that obtain kg where kg: "kg \<in> set G" "r = vr kg" by auto
    obtain code title band g where kgeq: "kg = ((code, title, band), g)" by (metis surj_pair)
    from kg(1) have "(code, title, band) \<in> key ` set J"
      unfolding G_def kgeq by (simp add: group_by_iff)
    then obtain c l where cl: "(c, l) \<in> set J" "key (c, l) = (code, title, band)" by force
    from cl(2) have k: "code = c_course_code c" "title = c_title c"
        "band = \<lfloor>l_progress_percent l / 10\<rfloor>" by (simp_all add: key_def)
    from cl(1) have "c \<in> set courses" "l \<in> set logs" "c_id c = l_course_id l"
      by (simp_all add: J)
    with fields [OF kg(1) [unfolded kgeq]] show ?thesis
      unfolding kg(2) kgeq k by auto
  qed
  have 2: "\<exists>r\<in>set (map vr G).
               v_course_code r = c_course_code c \<and> v_title r = c_title c
             \<and> v_segment_start r = \<lfloor>l_progress_percent l / 10\<rfloor> * 10"
    if "c \<in> set courses" "l \<in> set logs" "c_id c = l_course_id l" for c l
  proof -
    from that have "(c, l) \<in> set J" by (simp add: J)
    then have "key (c, l) \<in> key ` set J" by (rule imageI)
    then have g: "((c_course_code c, c_title c, \<lfloor>l_progress_percent l / 10\<rfloor>),
        filter (\<lambda>r. key r = key (c, l)) J) \<in> set G"
      unfolding G_def group_by_iff by (simp add: key_def)
    from fields [OF g] g show ?thesis by force
  qed
  let ?rows = "sort_key (\<lambda>r. (v_course_code r, v_segment_start r)) (map vr G)"
  have s: "set ?rows = set (map vr G)" by simp
  show ?thesis
    unfolding eq
    apply (rule exI [of _ ?rows])
    unfolding s
    using 1 2 apply blast
    done
qed

lemma band_contains:
  fixes x :: rat
  shows "of_int (\<lfloor>x / 10\<rfloor> * 10) \<le> x \<and> x < of_int (\<lfloor>x / 10\<rfloor> * 10 + 10)"
proof -
  from floor_correct [of "x / 10"]
  have "of_int \<lfloor>x / 10\<rfloor> \<le> x / 10" "x / 10 < of_int \<lfloor>x / 10\<rfloor> + 1" by simp_all
  then have "of_int \<lfloor>x / 10\<rfloor> * 10 \<le> x" "x < (of_int \<lfloor>x / 10\<rfloor> + 1) * 10"
    by (simp_all add: pos_le_divide_eq pos_divide_less_eq)
  then show ?thesis by (simp add: distrib_right)
qed

text \<open>
  C4, as the code has it. \<^verbatim>\<open>analyze_course_dropout\<close> always returns exactly the ten
  segments [0,10), [10,20), ..., [90,100), in this order; \<^verbatim>\<open>users_reached\<close> of a segment
  counts the users of the course with a log at or above the segment's start, so a user with
  a log at 100 is counted in every segment, the last included. The view
  \<^verbatim>\<open>v_dropout_by_segment\<close> never raises. It has rows only for bands that hold a log:
  every row ends 10 above its start, starts at \<^verbatim>\<open>FLOOR(progress_percent / 10) * 10\<close> of a
  log of its course, and that log's progress lies from the row's start up to, but not at,
  its end. Every log of a course with a progress of at least 0 and below 100 has its row,
  and the row's band is one of the ten.
\<close>

theorem ten_segments_and_view_bands:
  "(\<exists>rows. analyze_course_dropout logs p = Inr rows
     \<and> map (\<lambda>r. (segment_start r, segment_end r)) rows =
         [(0, 10), (10, 20), (20, 30), (30, 40), (40, 50), (50, 60), (60, 70), (70, 80),
          (80, 90), (90, 100)]
     \<and> (\<forall>r\<in>set rows.
          users_reached r =
            int (card {v. \<exists>l\<in>set logs. l_course_id l = p \<and> l_user_id l = v
                          \<and> of_int (segment_start r) \<le> l_progress_percent l})
        \<and> (\<forall>l\<in>set logs. l_course_id l = p \<and> l_progress_percent l = 100 \<longrightarrow>
              l_user_id l \<in> set (reached_ids logs p (segment_start r))
            \<and> users_reached r = int (length (reached_ids logs p (segment_start r))))))
   \<and> (\<exists>vrows. v_dropout_by_segment courses logs = Inr vrows
     \<and> (\<forall>r\<in>set vrows.
           v_segment_end r = v_segment_start r + 10
         \<and> (\<exists>c\<in>set courses. \<exists>l\<in>set logs.
               c_id c = l_course_id l \<and> v_course_code r = c_course_code c
             \<and> v_title r = c_title c
             \<and> v_segment_start r = \<lfloor>l_progress_percent l / 10\<rfloor> * 10
             \<and> of_int (v_segment_start r) \<le> l_progress_percent l
             \<and> l_progress_percent l < of_int (v_segment_end r)))
     \<and> (\<forall>c\<in>set courses. \<forall>l\<in>set logs.
           c_id c = l_course_id l \<and> 0 \<le> l_progress_percent l \<and> l_progress_percent l < 100 \<longrightarrow>
           (\<exists>r\<in>set vrows.
               v_course_code r = c_course_code c \<and> v_title r = c_title c
             \<and> v_segment_start r = \<lfloor>l_progress_percent l / 10\<rfloor> * 10
             \<and> v_segment_start r \<in> {0, 10, 20, 30, 40, 50, 60, 70, 80, 90})))"
proof -
  have band: "\<lfloor>x / 10\<rfloor> * 10 \<in> {0, 10, 20, 30, 40, 50, 60, 70, 80, 90 :: int}"
    if "0 \<le> x" "x < 100" for x :: rat
    using band_in_segments [OF that] by (simp add: segments_eq)
  from view_rows [of courses logs]
  obtain vrows where eq: "v_dropout_by_segment courses logs = Inr vrows"
    and 1: "\<forall>r\<in>set vrows.
           v_segment_end r = v_segment_start r + 10
         \<and> (\<exists>c\<in>set courses. \<exists>l\<in>set logs.
               c_id c = l_course_id l \<and> v_course_code r = c_course_code c
             \<and> v_title r = c_title c
             \<and> v_segment_start r = \<lfloor>l_progress_percent l / 10\<rfloor> * 10)"
    and 2: "\<forall>c\<in>set courses. \<forall>l\<in>set logs. c_id c = l_course_id l \<longrightarrow>
           (\<exists>r\<in>set vrows.
               v_course_code r = c_course_code c \<and> v_title r = c_title c
             \<and> v_segment_start r = \<lfloor>l_progress_percent l / 10\<rfloor> * 10)"
    by (elim exE conjE)
  have 1: "v_segment_end r = v_segment_start r + 10
         \<and> (\<exists>c\<in>set courses. \<exists>l\<in>set logs.
               c_id c = l_course_id l \<and> v_course_code r = c_course_code c
             \<and> v_title r = c_title c
             \<and> v_segment_start r = \<lfloor>l_progress_percent l / 10\<rfloor> * 10
             \<and> of_int (v_segment_start r) \<le> l_progress_percent l
             \<and> l_progress_percent l < of_int (v_segment_end r))"
    if "r \<in> set vrows" for r
  proof -
    from 1 that obtain c l where cl: "c \<in> set courses" "l \<in> set logs"
      "c_id c = l_course_id l" "v_course_code r = c_course_code c" "v_title r = c_title c"
      "v_segment_start r = \<lfloor>l_progress_percent l / 10\<rfloor> * 10"
      and e: "v_segment_end r = v_segment_start r + 10" by blast
    from band_contains [of "l_progress_percent l"]
    have "of_int (v_segment_start r) \<le> l_progress_percent l"
      "l_progress_percent l < of_int (v_segment_end r)"
      unfolding e cl(6) by simp_all
    with cl e show ?thesis by blast
  qed
  have 2: "\<exists>r\<in>set vrows.
               v_course_code r = c_course_code c \<and> v_title r = c_title c
             \<and> v_segment_start r = \<lfloor>l_progress_percent l / 10\<rfloor> * 10
             \<and> v_segment_start r \<in> {0, 10, 20, 30, 40, 50, 60, 70, 80, 90}"
    if "c \<in> set courses" "l \<in> set logs" "c_id c = l_course_id l"
      "0 \<le> l_progress_percent l" "l_progress_percent l < 100" for c l
  proof -
    from 2 that(1-3) obtain r where r: "r \<in> set vrows" "v_course_code r = c_course_code c"
      "v_title r = c_title c" "v_segment_start r = \<lfloor>l_progress_percent l / 10\<rfloor> * 10"
      by blast
    from band [OF that(4,5)] r(4)
    have "v_segment_start r \<in> {0, 10, 20, 30, 40, 50, 60, 70, 80, 90}" by simp
    with r show ?thesis by blast
  qed
  have v: "\<exists>vrows. v_dropout_by_segment courses logs = Inr vrows
     \<and> (\<forall>r\<in>set vrows.
           v_segment_end r = v_segment_start r + 10
         \<and> (\<exists>c\<in>set courses. \<exists>l\<in>set logs.
               c_id c = l_course_id l \<and> v_course_code r = c_course_code c
             \<and> v_title r = c_title c
             \<and> v_segment_start r = \<lfloor>l_progress_percent l / 10\<rfloor> * 10
             \<and> of_int (v_segment_start r) \<le> l_progress_percent l
             \<and> l_progress_percent l < of_int (v_segment_end r)))
     \<and> (\<forall>c\<in>set courses. \<forall>l\<in>set logs.
           c_id c = l_course_id l \<and> 0 \<le> l_progress_percent l \<and> l_progress_percent l < 100 \<longrightarrow>
           (\<exists>r\<in>set vrows.
               v_course_code r = c_course_code c \<and> v_title r = c_title c
             \<and> v_segment_start r = \<lfloor>l_progress_percent l / 10\<rfloor> * 10
             \<and> v_segment_start r \<in> {0, 10, 20, 30, 40, 50, 60, 70, 80, 90}))"
    using eq 1 2 by blast
  from analyze_segments [of logs p] v show ?thesis by (rule conjI)
qed

theorem ten_segments_and_view_bands_witness:
  "\<exists>rows vrows r. analyze_course_dropout example_logs 1 = Inr rows
     \<and> rows ! 9 \<in> set rows \<and> segment_start (rows ! 9) = 90 \<and> segment_end (rows ! 9) = 100
     \<and> example_logs ! 2 \<in> set example_logs \<and> l_course_id (example_logs ! 2) = 1
     \<and> l_progress_percent (example_logs ! 2) = 100
     \<and> l_user_id (example_logs ! 2) \<in> set (reached_ids example_logs 1 (segment_start (rows ! 9)))
     \<and> v_dropout_by_segment [example_course] example_logs = Inr vrows
     \<and> example_course \<in> set [example_course] \<and> example_logs ! 0 \<in> set example_logs
     \<and> c_id example_course = l_course_id (example_logs ! 0)
     \<and> 0 \<le> l_progress_percent (example_logs ! 0) \<and> l_progress_percent (example_logs ! 0) < 100
     \<and> r \<in> set vrows \<and> v_segment_start r = 0 \<and> v_segment_end r = 10"
proof -
  from ten_segments_and_view_bands [of example_logs 1 "[example_course]"]
  obtain rows vrows where rows: "analyze_course_dropout example_logs 1 = Inr rows"
    and segs: "map (\<lambda>r. (segment_start r, segment_end r)) rows =
         [(0, 10), (10, 20), (20, 30), (30, 40), (40, 50), (50, 60), (60, 70), (70, 80),
          (80, 90), (90, 100)]"
    and full0: "\<forall>r\<in>set rows.
          users_reached r =
            int (card {v. \<exists>l\<in>set example_logs. l_course_id l = 1 \<and> l_user_id l = v
                          \<and> of_int (segment_start r) \<le> l_progress_percent l})
        \<and> (\<forall>l\<in>set example_logs. l_course_id l = 1 \<and> l_progress_percent l = 100 \<longrightarrow>
              l_user_id l \<in> set (reached_ids example_logs 1 (segment_start r))
            \<and> users_reached r = int (length (reached_ids example_logs 1 (segment_start r))))"
    and vrows: "v_dropout_by_segment [example_course] example_logs = Inr vrows"
    and ends0: "\<forall>r\<in>set vrows.
           v_segment_end r = v_segment_start r + 10
         \<and> (\<exists>c\<in>set [example_course]. \<exists>l\<in>set example_logs.
               c_id c = l_course_id l \<and> v_course_code r = c_course_code c
             \<and> v_title r = c_title c
             \<and> v_segment_start r = \<lfloor>l_progress_percent l / 10\<rfloor> * 10
             \<and> of_int (v_segment_start r) \<le> l_progress_percent l
             \<and> l_progress_percent l < of_int (v_segment_end r))"
    and bands0: "\<forall>c\<in>set [example_course]. \<forall>l\<in>set example_logs.
           c_id c = l_course_id l \<and> 0 \<le> l_progress_percent l \<and> l_progress_percent l < 100 \<longrightarrow>
           (\<exists>r\<in>set vrows.
               v_course_code r = c_course_code c \<and> v_title r = c_title c
             \<and> v_segment_start r = \<lfloor>l_progress_percent l / 10\<rfloor> * 10
             \<and> v_segment_start r \<in> {0, 10, 20, 30, 40, 50, 60, 70, 80, 90})"
    by (elim conjE exE)
  from full0 have full: "\<forall>r\<in>set rows. \<forall>l\<in>set example_logs. l_course_id l = 1 \<and> l_progress_percent l = 100 \<longrightarrow>
              l_user_id l \<in> set (reached_ids example_logs 1 (segment_start r))"
    by blast
  from ends0 have ends: "\<forall>r\<in>set vrows. v_segment_end r = v_segment_start r + 10" by blast
  from arg_cong [OF segs, of length] have len: "length rows = 10" by simp
  then have mem: "rows ! 9 \<in> set rows" by simp
  from nth_of_map [OF segs, of 9] len
  have s9: "segment_start (rows ! 9) = 90" "segment_end (rows ! 9) = 100" by simp_all
  have l2: "example_logs ! 2 \<in> set example_logs" "l_course_id (example_logs ! 2) = 1"
    "l_progress_percent (example_logs ! 2) = 100"
    by (simp_all add: example_logs_def)
  from full mem l2 have r9: "l_user_id (example_logs ! 2) \<in> set (reached_ids example_logs 1 (segment_start (rows ! 9)))"
    by blast
  have l0: "example_course \<in> set [example_course]" "example_logs ! 0 \<in> set example_logs"
    "c_id example_course = l_course_id (example_logs ! 0)"
    "0 \<le> l_progress_percent (example_logs ! 0)" "l_progress_percent (example_logs ! 0) < 100"
    by (simp_all add: example_logs_def example_course_def)
  have b0: "\<lfloor>l_progress_percent (example_logs ! 0) / 10\<rfloor> * 10 = 0"
    by code_simp
  from bands0 l0 have "\<exists>r\<in>set vrows.
      v_segment_start r = \<lfloor>l_progress_percent (example_logs ! 0) / 10\<rfloor> * 10"
    by blast
  then obtain r where r: "r \<in> set vrows" "v_segment_start r = 0"
    unfolding b0 by blast
  with ends have e: "v_segment_end r = 10" by simp
  show ?thesis
    apply (rule exI [of _ rows], rule exI [of _ vrows], rule exI [of _ r])
    apply (intro conjI)
    apply (fact rows mem s9 l2 r9 vrows l0 r e)+
    done
qed

text \<open>
  C4 as stated also covers the view \<^verbatim>\<open>v_dropout_by_segment\<close>. On the example the view has
  five rows for course 1, not ten, and the log at 100 percent gives a row for the band from
  100 to 110.
\<close>

theorem ten_segments_counterexample:
  "v_dropout_by_segment [example_course] example_logs =
     Inr [\<lparr>v_course_code = ''PY101'', v_title = ''Python'', v_segment_start = 0,
            v_segment_end = 10, total_logs = 1, v_dropout_count = 0, v_dropout_rate = Some 0\<rparr>,
          \<lparr>v_course_code = ''PY101'', v_title = ''Python'', v_segment_start = 10,
            v_segment_end = 20, total_logs = 1, v_dropout_count = 1, v_dropout_rate = Some 100\<rparr>,
          \<lparr>v_course_code = ''PY101'', v_title = ''Python'', v_segment_start = 30,
            v_segment_end = 40, total_logs = 1, v_dropout_count = 1, v_dropout_rate = Some 100\<rparr>,
          \<lparr>v_course_code = ''PY101'', v_title = ''Python'', v_segment_start = 90,
            v_segment_end = 100, total_logs = 1, v_dropout_count = 1, v_dropout_rate = Some 100\<rparr>,
          \<lparr>v_course_code = ''PY101'', v_title = ''Python'', v_segment_start = 100,
            v_segment_end = 110, total_logs = 1, v_dropout_count = 0, v_dropout_rate = Some 0\<rparr>]"
  by code_simp

section \<open>Risk level and the returned rate\<close>

lemma sql_and_True: "sql_and a b = Some True \<longleftrightarrow> a = Some True \<and> b = Some True"
  by (cases a; cases b) (auto simp: sql_and_def)

lemma dropout_case_Some:
  "dropout_case ((s, u), lo) = Some v \<longleftrightarrow>
     (\<exists>l. lo = Some l \<and> l_user_id l = v \<and> l_is_dropout l = Some True
        \<and> of_int s \<le> l_progress_percent l \<and> l_progress_percent l < of_int (s + 10))"
proof (cases lo)
  case None
  then show ?thesis by (simp add: dropout_case_def)
next
  case (Some l)
  show ?thesis
    unfolding Some dropout_case_def
    by (cases "l_is_dropout l")
      (auto simp: is_true_def sql_and_True sql_eq_def sql_ge_def sql_lt_def)
qed

lemma dropout_ids_logs:
  assumes "s \<in> set segments"
  shows "set (dropout_ids logs p s) =
     {v. \<exists>l\<in>set logs. l_course_id l = p \<and> l_user_id l = v \<and> l_is_dropout l = Some True
           \<and> of_int s \<le> l_progress_percent l \<and> l_progress_percent l < of_int (s + 10)}"
    (is "?L = ?R")
proof (intro set_eqI iffI)
  fix v assume "v \<in> ?L"
  then obtain r where r: "r \<in> set (segment_join logs p)" "fst (fst r) = s"
      "dropout_case r = Some v"
    by (auto simp: dropout_ids_def set_non_null segment_group_def)
  obtain s0 u lo where r0: "r = ((s0, u), lo)" by (metis surj_pair)
  from r(2) have s0: "s0 = s" by (simp add: r0)
  from r(3) obtain l where l: "lo = Some l" "l_user_id l = v" "l_is_dropout l = Some True"
      "of_int s \<le> l_progress_percent l" "l_progress_percent l < of_int (s + 10)"
    unfolding r0 s0 dropout_case_Some by blast
  from r(1) have "l \<in> set logs"
    and "is_true (sql_and (sql_eq (Some (l_user_id l)) (map_option u_user_id u))
                           (sql_eq (Some (l_course_id l)) (Some p)))"
    unfolding segment_join_def r0 l(1) by (auto simp: left_join_Some_iff)
  then have "l \<in> set logs" "l_course_id l = p"
    by (auto simp: is_true_def sql_and_True sql_eq_def split: option.splits)
  with l show "v \<in> ?R" by blast
next
  fix v assume "v \<in> ?R"
  then obtain l where l: "l \<in> set logs" "l_course_id l = p" "l_user_id l = v"
      "l_is_dropout l = Some True" "of_int s \<le> l_progress_percent l"
      "l_progress_percent l < of_int (s + 10)" by blast
  from l(1,2,3,5) have "\<exists>u\<in>set (user_max_progress logs p).
      u_user_id u = v \<and> is_true (sql_ge (u_max_progress u) (Some (of_int s)))"
    unfolding user_max_progress_iff by blast
  then obtain u where u: "u \<in> set (user_max_progress logs p)" "u_user_id u = v"
      "is_true (sql_ge (u_max_progress u) (Some (of_int s)))" by blast
  with assms have "(s, Some u) \<in> set (left_join segments (user_max_progress logs p)
          (\<lambda>s u. sql_ge (u_max_progress u) (Some (of_int s))))"
    by (simp add: left_join_Some_iff)
  moreover have "is_true (sql_and (sql_eq (Some (l_user_id l)) (map_option u_user_id (Some u)))
                           (sql_eq (Some (l_course_id l)) (Some p)))"
    using l(2,3) u(2) by (simp add: is_true_def sql_and_True sql_eq_def)
  ultimately have "((s, Some u), Some l) \<in> set (segment_join logs p)"
    unfolding segment_join_def using l(1) by (simp add: left_join_Some_iff)
  then have "((s, Some u), Some l) \<in> set (segment_group logs p s)"
    by (simp add: segment_group_def)
  moreover have "dropout_case ((s, Some u), Some l) = Some v"
    unfolding dropout_case_Some using l by simp
  ultimately show "v \<in> ?L"
    by (force simp: dropout_ids_def set_non_null)
qed

lemma cohort_reached: "length (reached_ids (cohort n d) 1 0) = n"
proof -
  have z: "(0::int) \<in> set segments" by (simp add: segments_eq)
  have "set (reached_ids (cohort n d) 1 0) = int ` {0..<n}"
    unfolding reached_ids_logs [OF z] by (auto simp: cohort_def)
  moreover have "distinct (reached_ids (cohort n d) 1 0)" by (simp add: reached_ids_def)
  ultimately have "length (reached_ids (cohort n d) 1 0) = card (int ` {0..<n})"
    using distinct_card [of "reached_ids (cohort n d) 1 0"] by simp
  then show ?thesis by (simp add: card_image)
qed

lemma cohort_dropouts:
  assumes "d \<le> n"
  shows "length (dropout_ids (cohort n d) 1 0) = d"
proof -
  have z: "(0::int) \<in> set segments" by (simp add: segments_eq)
  have "set (dropout_ids (cohort n d) 1 0) = int ` {0..<d}"
    unfolding dropout_ids_logs [OF z] using assms by (auto simp: cohort_def)
  moreover have "distinct (dropout_ids (cohort n d) 1 0)" by (simp add: dropout_ids_def)
  ultimately have "length (dropout_ids (cohort n d) 1 0) = card (int ` {0..<d})"
    using distinct_card [of "dropout_ids (cohort n d) 1 0"] by simp
  then show ?thesis by (simp add: card_image)
qed

lemma cohort_first_row:
  assumes "d \<le> n" "0 < n"
  shows "hd (projr (analyze_course_dropout (cohort n d) 1)) =
     \<lparr>segment_start = 0, segment_end = 10, users_reached = int n, dropout_count = int d,
      dropout_rate = Some (round_half_away (of_nat d / of_nat n * 100) 2),
      risk_level = risk_case (Some (of_nat d / of_nat n * 100))\<rparr>"
proof -
  from assms(2) cohort_reached [of n d] have ne: "reached_ids (cohort n d) 1 0 \<noteq> []"
    by auto
  show ?thesis
    using assms(2)
    by (simp add: analyze_course_dropout_eq segments_eq cohort_reached
        cohort_dropouts [OF assms(1)] ROUND_def ne)
qed

lemma round_half_away_nonneg:
  assumes "0 \<le> q"
  shows "round_half_away q 2 = of_int \<lfloor>q * 100 + 1 / 2\<rfloor> / 100"
proof (cases "q = 0")
  case True
  have "\<lfloor>(1::rat) / 2\<rfloor> = 0" by (simp add: floor_eq_iff)
  with True show ?thesis by (simp add: round_half_away_def)
next
  case False
  with assms have "0 < q" by simp
  then show ?thesis by (simp add: round_half_away_def)
qed

lemma round_half_away_ge:
  assumes "0 \<le> q" "of_int t \<le> q"
  shows "of_int t \<le> round_half_away q 2"
proof -
  have "of_int (t * 100) \<le> q * 100 + 1 / 2" using assms(2) by simp
  then have "t * 100 \<le> \<lfloor>q * 100 + 1 / 2\<rfloor>" by (simp only: le_floor_iff)
  then have "(of_int (t * 100) :: rat) \<le> of_int \<lfloor>q * 100 + 1 / 2\<rfloor>"
    by (simp only: of_int_le_iff)
  then show ?thesis unfolding round_half_away_nonneg [OF assms(1)] by simp
qed

lemma round_half_away_le:
  assumes "0 \<le> q" "q < of_int t"
  shows "round_half_away q 2 \<le> of_int t"
proof -
  have "q * 100 + 1 / 2 < of_int (t * 100 + 1)" using assms(2) by simp
  then have "\<lfloor>q * 100 + 1 / 2\<rfloor> < t * 100 + 1" by (simp only: floor_less_iff)
  then have "\<lfloor>q * 100 + 1 / 2\<rfloor> \<le> t * 100" by simp
  then have "(of_int \<lfloor>q * 100 + 1 / 2\<rfloor> :: rat) \<le> of_int (t * 100)"
    by (simp only: of_int_le_iff)
  then show ?thesis unfolding round_half_away_nonneg [OF assms(1)] by simp
qed

lemma risk_case_Some:
  "risk_case (Some x) =
     (if 20 \<le> x then ''critical'' else if 15 \<le> x then ''high''
      else if 10 \<le> x then ''medium'' else ''low'')"
  by (simp add: risk_case_def is_true_def sql_ge_def)

lemma risk_of_rounded:
  assumes "0 \<le> q" and x: "x = round_half_away q 2"
  shows "(20 < x \<longrightarrow> risk_case (Some q) = ''critical'')
       \<and> (x = 20 \<longrightarrow> risk_case (Some q) = ''critical'' \<or> risk_case (Some q) = ''high'')
       \<and> (15 < x \<and> x < 20 \<longrightarrow> risk_case (Some q) = ''high'')
       \<and> (x = 15 \<longrightarrow> risk_case (Some q) = ''high'' \<or> risk_case (Some q) = ''medium'')
       \<and> (10 < x \<and> x < 15 \<longrightarrow> risk_case (Some q) = ''medium'')
       \<and> (x = 10 \<longrightarrow> risk_case (Some q) = ''medium'' \<or> risk_case (Some q) = ''low'')
       \<and> (x < 10 \<longrightarrow> risk_case (Some q) = ''low'')"
proof -
  have ge: "of_int t \<le> x" if "of_int t \<le> q" for t
    unfolding x using assms(1) that by (rule round_half_away_ge)
  have le: "x \<le> of_int t" if "q < of_int t" for t
    unfolding x using assms(1) that by (rule round_half_away_le)
  have g20: "20 \<le> q \<Longrightarrow> 20 \<le> x" and g15: "15 \<le> q \<Longrightarrow> 15 \<le> x" and g10: "10 \<le> q \<Longrightarrow> 10 \<le> x"
    using ge [of 20] ge [of 15] ge [of 10] by simp_all
  have l20: "q < 20 \<Longrightarrow> x \<le> 20" and l15: "q < 15 \<Longrightarrow> x \<le> 15" and l10: "q < 10 \<Longrightarrow> x \<le> 10"
    using le [of 20] le [of 15] le [of 10] by simp_all
  have c: "q < 10 \<or> (10 \<le> q \<and> q < 15) \<or> (15 \<le> q \<and> q < 20) \<or> 20 \<le> q" by linarith
  then show ?thesis
  proof (elim disjE conjE)
    assume q: "q < 10"
    with l10 have "x \<le> 10" by simp
    with q show ?thesis by (simp add: risk_case_Some)
  next
    assume q: "10 \<le> q" "q < 15"
    with g10 l15 have "10 \<le> x" "x \<le> 15" by simp_all
    with q show ?thesis by (simp add: risk_case_Some)
  next
    assume q: "15 \<le> q" "q < 20"
    with g15 l20 have "15 \<le> x" "x \<le> 20" by simp_all
    with q show ?thesis by (simp add: risk_case_Some)
  next
    assume q: "20 \<le> q"
    with g20 have "20 \<le> x" by simp
    with q show ?thesis by (simp add: risk_case_Some)
  qed
qed

lemma example_dropout_rate:
  "map dropout_rate (projr (analyze_course_dropout example_logs 1)) =
     [Some 0, Some (3333 / 100), Some 0, Some (3333 / 100), Some 0, Some 0, Some 0, Some 0,
      Some 0, Some 50]"
  by code_simp

lemma example_rounding:
  "round_half_away (of_nat 151 / of_nat 1007 * 100) 2 = 15"
  "round_half_away (of_nat 3 / of_nat 20 * 100) 2 = 15"
  by code_simp+

text \<open>
  C3, as the code has it. The risk level of a segment is a function of its unrounded rate,
  the value of \<^verbatim>\<open>dropouts::numeric / NULLIF(users_reached, 0) * 100\<close>, with the thresholds
  tried from the top: at least 20 is critical, else at least 15 is high, else at least 10
  is medium, and everything else, a NULL rate included, is low; so 20 is critical, 14.9 is
  medium and 9.99 is low. The \<^verbatim>\<open>dropout_rate\<close> that is returned is this rate rounded to
  two decimals. It fixes the level wherever it is not exactly 20, 15 or 10: above 20
  critical, between 15 and 20 high, between 10 and 15 medium, below 10 low, NULL low. At
  exactly 20, 15 or 10 the level is the one of the threshold or the one below it.
\<close>

theorem risk_level_of_unrounded_rate:
  "(\<exists>rows. analyze_course_dropout logs p = Inr rows \<and> length rows = 10
      \<and> (\<forall>r\<in>set rows. \<exists>q.
            rate_expr (dropout_count r) (users_reached r) = Inr q
          \<and> q = (if users_reached r = 0 then None
                 else Some (of_int (dropout_count r) / of_int (users_reached r) * 100))
          \<and> dropout_rate r = ROUND q 2
          \<and> risk_level r = risk_case q
          \<and> (dropout_rate r = None \<longrightarrow> risk_level r = ''low'')
          \<and> (\<forall>y. dropout_rate r = Some y \<longrightarrow>
                (20 < y \<longrightarrow> risk_level r = ''critical'')
              \<and> (y = 20 \<longrightarrow> risk_level r = ''critical'' \<or> risk_level r = ''high'')
              \<and> (15 < y \<and> y < 20 \<longrightarrow> risk_level r = ''high'')
              \<and> (y = 15 \<longrightarrow> risk_level r = ''high'' \<or> risk_level r = ''medium'')
              \<and> (10 < y \<and> y < 15 \<longrightarrow> risk_level r = ''medium'')
              \<and> (y = 10 \<longrightarrow> risk_level r = ''medium'' \<or> risk_level r = ''low'')
              \<and> (y < 10 \<longrightarrow> risk_level r = ''low''))))
   \<and> risk_case (Some x) =
       (if 20 \<le> x then ''critical'' else if 15 \<le> x then ''high''
        else if 10 \<le> x then ''medium'' else ''low'')
   \<and> risk_case None = ''low''
   \<and> risk_case (Some 20) = ''critical''
   \<and> risk_case (Some (149 / 10)) = ''medium''
   \<and> risk_case (Some (999 / 100)) = ''low''"
proof -
  let ?d = "\<lambda>s. int (length (dropout_ids logs p s))"
  let ?u = "\<lambda>s. int (length (reached_ids logs p s))"
  let ?q = "\<lambda>s. if ?u s = 0 then None else Some (of_int (?d s) / of_int (?u s) * 100 :: rat)"
  let ?row = "\<lambda>s. \<lparr>segment_start = s, segment_end = s + 10, users_reached = ?u s,
      dropout_count = ?d s, dropout_rate = ROUND (?q s) 2, risk_level = risk_case (?q s)\<rparr>"
  have low: "risk_case None = ''low''"
    by (simp add: risk_case_def is_true_def sql_ge_def)
  have eq: "analyze_course_dropout logs p = Inr (map ?row segments)"
    by (simp add: analyze_course_dropout_eq)
  have row: "\<exists>q. rate_expr (dropout_count r) (users_reached r) = Inr q
          \<and> q = (if users_reached r = 0 then None
                 else Some (of_int (dropout_count r) / of_int (users_reached r) * 100))
          \<and> dropout_rate r = ROUND q 2
          \<and> risk_level r = risk_case q
          \<and> (dropout_rate r = None \<longrightarrow> risk_level r = ''low'')
          \<and> (\<forall>y. dropout_rate r = Some y \<longrightarrow>
                (20 < y \<longrightarrow> risk_level r = ''critical'')
              \<and> (y = 20 \<longrightarrow> risk_level r = ''critical'' \<or> risk_level r = ''high'')
              \<and> (15 < y \<and> y < 20 \<longrightarrow> risk_level r = ''high'')
              \<and> (y = 15 \<longrightarrow> risk_level r = ''high'' \<or> risk_level r = ''medium'')
              \<and> (10 < y \<and> y < 15 \<longrightarrow> risk_level r = ''medium'')
              \<and> (y = 10 \<longrightarrow> risk_level r = ''medium'' \<or> risk_level r = ''low'')
              \<and> (y < 10 \<longrightarrow> risk_level r = ''low''))"
    if "r \<in> set (map ?row segments)" for r
  proof -
    from that obtain s where r: "r = ?row s" by auto
    show ?thesis
    proof (cases "?u s = 0")
      case True
      then show ?thesis
        unfolding r by (simp add: rate_expr_eq ROUND_def low)
    next
      case False
      define q :: rat where "q = of_int (?d s) / of_int (?u s) * 100"
      have q0: "0 \<le> q" by (simp add: q_def)
      have qs: "?q s = Some q" using False by (simp add: q_def)
      have f: "rate_expr (dropout_count r) (users_reached r) = Inr (Some q)"
        "(if users_reached r = 0 then None
          else Some (of_int (dropout_count r) / of_int (users_reached r) * 100)) = Some q"
        "dropout_rate r = Some (round_half_away q 2)" "risk_level r = risk_case (Some q)"
        unfolding r using False by (simp_all add: rate_expr_eq ROUND_def q_def)
      from risk_of_rounded [OF q0 refl]
      have "\<forall>y. dropout_rate r = Some y \<longrightarrow>
                (20 < y \<longrightarrow> risk_level r = ''critical'')
              \<and> (y = 20 \<longrightarrow> risk_level r = ''critical'' \<or> risk_level r = ''high'')
              \<and> (15 < y \<and> y < 20 \<longrightarrow> risk_level r = ''high'')
              \<and> (y = 15 \<longrightarrow> risk_level r = ''high'' \<or> risk_level r = ''medium'')
              \<and> (10 < y \<and> y < 15 \<longrightarrow> risk_level r = ''medium'')
              \<and> (y = 10 \<longrightarrow> risk_level r = ''medium'' \<or> risk_level r = ''low'')
              \<and> (y < 10 \<longrightarrow> risk_level r = ''low'')"
        unfolding f(3,4) by blast
      with f show ?thesis
        by (intro exI [of _ "Some q"]) (simp add: ROUND_def)
    qed
  qed
  have "\<exists>rows. analyze_course_dropout logs p = Inr rows \<and> length rows = 10
      \<and> (\<forall>r\<in>set rows. \<exists>q.
            rate_expr (dropout_count r) (users_reached r) = Inr q
          \<and> q = (if users_reached r = 0 then None
                 else Some (of_int (dropout_count r) / of_int (users_reached r) * 100))
          \<and> dropout_rate r = ROUND q 2
          \<and> risk_level r = risk_case q
          \<and> (dropout_rate r = None \<longrightarrow> risk_level r = ''low'')
          \<and> (\<forall>y. dropout_rate r = Some y \<longrightarrow>
                (20 < y \<longrightarrow> risk_level r = ''critical'')
              \<and> (y = 20 \<longrightarrow> risk_level r = ''critical'' \<or> risk_level r = ''high'')
              \<and> (15 < y \<and> y < 20 \<longrightarrow> risk_level r = ''high'')
              \<and> (y = 15 \<longrightarrow> risk_level r = ''high'' \<or> risk_level r = ''medium'')
              \<and> (10 < y \<and> y < 15 \<longrightarrow> risk_level r = ''medium'')
              \<and> (y = 10 \<longrightarrow> risk_level r = ''medium'' \<or> risk_level r = ''low'')
              \<and> (y < 10 \<longrightarrow> risk_level r = ''low'')))"
    unfolding eq
    apply (rule exI [of _ "map ?row segments"])
    apply (intro conjI ballI)
      apply (rule refl)
     apply (simp add: segments_eq)
    apply (erule row)
    done
  moreover have "risk_case (Some (149 / 10)) = ''medium''" "risk_case (Some (999 / 100)) = ''low''"
    "risk_case (Some 20) = ''critical''"
    by (simp_all add: risk_case_Some)
  ultimately show ?thesis using low risk_case_Some [of x] by (intro conjI) simp_all
qed

theorem risk_level_of_unrounded_rate_witness:
  "\<exists>rows. analyze_course_dropout example_logs 1 = Inr rows
      \<and> rows ! 1 \<in> set rows \<and> users_reached (rows ! 1) = 3 \<and> dropout_count (rows ! 1) = 1
      \<and> dropout_rate (rows ! 1) = Some (3333 / 100) \<and> (20::rat) < 3333 / 100
      \<and> risk_level (rows ! 1) = ''critical''"
proof -
  from risk_level_of_unrounded_rate [of example_logs 1 0]
  obtain rows where rows: "analyze_course_dropout example_logs 1 = Inr rows" "length rows = 10"
    and all: "\<forall>r\<in>set rows. \<exists>q.
            rate_expr (dropout_count r) (users_reached r) = Inr q
          \<and> q = (if users_reached r = 0 then None
                 else Some (of_int (dropout_count r) / of_int (users_reached r) * 100))
          \<and> dropout_rate r = ROUND q 2
          \<and> risk_level r = risk_case q
          \<and> (dropout_rate r = None \<longrightarrow> risk_level r = ''low'')
          \<and> (\<forall>y. dropout_rate r = Some y \<longrightarrow>
                (20 < y \<longrightarrow> risk_level r = ''critical'')
              \<and> (y = 20 \<longrightarrow> risk_level r = ''critical'' \<or> risk_level r = ''high'')
              \<and> (15 < y \<and> y < 20 \<longrightarrow> risk_level r = ''high'')
              \<and> (y = 15 \<longrightarrow> risk_level r = ''high'' \<or> risk_level r = ''medium'')
              \<and> (10 < y \<and> y < 15 \<longrightarrow> risk_level r = ''medium'')
              \<and> (y = 10 \<longrightarrow> risk_level r = ''medium'' \<or> risk_level r = ''low'')
              \<and> (y < 10 \<longrightarrow> risk_level r = ''low''))"
    by (elim conjE exE)
  from rows(2) have mem: "rows ! 1 \<in> set rows" by simp
  have u: "map users_reached rows = [3, 3, 3, 3, 2, 2, 2, 2, 2, 2]"
    and d: "map dropout_count rows = [0, 1, 0, 1, 0, 0, 0, 0, 0, 1]"
    and x: "map dropout_rate rows =
      [Some 0, Some (3333 / 100), Some 0, Some (3333 / 100), Some 0, Some 0, Some 0, Some 0,
       Some 0, Some 50]"
    using example_users_reached example_dropout_count example_dropout_rate
    by (simp_all add: rows(1))
  have u1: "users_reached (rows ! 1) = 3" and d1: "dropout_count (rows ! 1) = 1"
    and x1: "dropout_rate (rows ! 1) = Some (3333 / 100)"
    using nth_of_map [OF u, of 1] nth_of_map [OF d, of 1] nth_of_map [OF x, of 1] rows(2)
    by simp_all
  have gt: "(20::rat) < 3333 / 100" by simp
  from all mem have "\<forall>y. dropout_rate (rows ! 1) = Some y \<longrightarrow>
      (20 < y \<longrightarrow> risk_level (rows ! 1) = ''critical'')" by blast
  with x1 gt have "risk_level (rows ! 1) = ''critical''" by blast
  with rows(1) mem u1 d1 x1 gt show ?thesis by blast
qed

text \<open>
  C3 as stated makes the level a function of the segment's dropout rate, with 15 or more
  high. Of 1007 users with 151 dropouts the rate is 14.995..., returned as 15.00, and the
  level is medium; of 20 users with 3 dropouts the rate is 15, returned as 15.00, and the
  level is high.
\<close>

theorem risk_level_rounded_rate_counterexample:
  "hd (projr (analyze_course_dropout (cohort 1007 151) 1)) =
     \<lparr>segment_start = 0, segment_end = 10, users_reached = 1007, dropout_count = 151,
      dropout_rate = Some 15, risk_level = ''medium''\<rparr>
   \<and> hd (projr (analyze_course_dropout (cohort 20 3) 1)) =
     \<lparr>segment_start = 0, segment_end = 10, users_reached = 20, dropout_count = 3,
      dropout_rate = Some 15, risk_level = ''high''\<rparr>"
proof -
  have a: "risk_case (Some (of_nat 151 / of_nat 1007 * 100)) = ''medium''"
    and b: "risk_case (Some (of_nat 3 / of_nat 20 * 100)) = ''high''"
    by (simp_all add: risk_case_Some)
  have "hd (projr (analyze_course_dropout (cohort 1007 151) 1)) =
     \<lparr>segment_start = 0, segment_end = 10, users_reached = 1007, dropout_count = 151,
      dropout_rate = Some 15, risk_level = ''medium''\<rparr>"
    using cohort_first_row [of 151 1007] unfolding example_rounding a by simp
  moreover have "hd (projr (analyze_course_dropout (cohort 20 3) 1)) =
     \<lparr>segment_start = 0, segment_end = 10, users_reached = 20, dropout_count = 3,
      dropout_rate = Some 15, risk_level = ''high''\<rparr>"
    using cohort_first_row [of 3 20] unfolding example_rounding b by simp
  ultimately show ?thesis by (rule conjI)
qed

section \<open>The course summary\<close>

lemma count_distinct_card: "count_distinct vs = int (card {v. Some v \<in> set vs})"
  by (simp add: count_distinct_def length_remdups_card_conv set_non_null)

lemma Some_in_map_iff: "Some v \<in> set (map f g) \<longleftrightarrow> (\<exists>r\<in>set g. f r = Some v)"
  by (induction g) auto

lemma summary_of_group_eq:
  "summary_of_group ((cid, code, title, category, difficulty), g) =
     Inr \<lparr>cs_course_id = cid, cs_course_code = code, cs_title = title,
          cs_category = category, cs_difficulty = difficulty,
          total_enrollments = count_distinct (map enrolled_case g),
          completions = count_distinct (map (status_case ''completed'') g),
          cs_dropouts = count_distinct (map (status_case ''dropped'') g),
          active_learners = count_distinct (map (status_case ''active'') g),
          completion_rate =
            (if count_distinct (map enrolled_case g) = 0 then None
             else Some (round_half_away
                    (of_int (count_distinct (map (status_case ''completed'') g))
                     / of_int (count_distinct (map enrolled_case g)) * 100) 2)),
          cs_dropout_rate =
            (if count_distinct (map enrolled_case g) = 0 then None
             else Some (round_half_away
                    (of_int (count_distinct (map (status_case ''dropped'') g))
                     / of_int (count_distinct (map enrolled_case g)) * 100) 2))\<rparr>"
  by (simp add: summary_of_group_def rate_expr_eq Let_def ROUND_def)

lemma summary_rows:
  "\<exists>rows. v_course_summary courses enrollments = Inr rows
     \<and> (\<forall>r\<in>set rows.
           total_enrollments r =
             int (card (e_user_id ` {e \<in> set enrollments. e_course_id e = cs_course_id r}))
         \<and> completions r =
             int (card (e_user_id ` {e \<in> set enrollments. e_course_id e = cs_course_id r
                                      \<and> e_status e = Some ''completed''}))
         \<and> cs_dropouts r =
             int (card (e_user_id ` {e \<in> set enrollments. e_course_id e = cs_course_id r
                                      \<and> e_status e = Some ''dropped''}))
         \<and> active_learners r =
             int (card (e_user_id ` {e \<in> set enrollments. e_course_id e = cs_course_id r
                                      \<and> e_status e = Some ''active''}))
         \<and> completion_rate r =
             (if total_enrollments r = 0 then None
              else Some (round_half_away
                     (of_int (completions r) / of_int (total_enrollments r) * 100) 2))
         \<and> cs_dropout_rate r =
             (if total_enrollments r = 0 then None
              else Some (round_half_away
                     (of_int (cs_dropouts r) / of_int (total_enrollments r) * 100) 2)))
     \<and> (\<forall>c\<in>set courses. c_is_active c = Some True \<longrightarrow>
           (\<exists>r\<in>set rows. cs_course_id r = c_id c))
     \<and> (\<forall>r\<in>set rows. \<exists>c\<in>set courses.
           c_is_active c = Some True \<and> cs_course_id r = c_id c)"
proof -
  define LJ where "LJ = left_join courses enrollments
                (\<lambda>c e. sql_eq (Some (c_id c)) (Some (e_course_id e)))"
  define FJ where "FJ = filter (\<lambda>r. is_true (sql_eq (c_is_active (fst r)) (Some True))) LJ"
  define key :: "course \<times> enrollment option \<Rightarrow> course_key"
    where "key = (\<lambda>r. (c_id (fst r), c_course_code (fst r), c_title (fst r),
                        c_category (fst r), c_difficulty (fst r)))"
  define G where "G = group_by key FJ"
  define sr where "sr = (\<lambda>kg. projr (summary_of_group kg))"
  have act: "is_true (sql_eq a (Some True)) \<longleftrightarrow> a = Some True" for a
    by (cases a) (auto simp: is_true_def sql_eq_def)
  have FJ_Some: "(c, Some e) \<in> set FJ \<longleftrightarrow>
      c \<in> set courses \<and> c_is_active c = Some True \<and> e \<in> set enrollments \<and> e_course_id e = c_id c"
    for c e
    by (auto simp: FJ_def LJ_def left_join_Some_iff act) (auto simp: is_true_def sql_eq_def)
  have FJ_fst: "c \<in> set courses \<and> c_is_active c = Some True" if "(c, eo) \<in> set FJ" for c eo
    using that by (auto simp: FJ_def LJ_def act dest: left_join_fst)
  have FJ_total: "\<exists>eo. (c, eo) \<in> set FJ" if "c \<in> set courses" "c_is_active c = Some True" for c
    using left_join_total [OF that(1), of enrollments "\<lambda>c e. sql_eq (Some (c_id c)) (Some (e_course_id e))"] that(2)
    by (auto simp: FJ_def LJ_def act)
  have sr: "summary_of_group kg = Inr (sr kg)" for kg
    by (cases kg rule: prod.exhaust [where 'a = course_key])
      (auto simp: sr_def summary_of_group_eq)
  have eq: "v_course_summary courses enrollments = Inr (map sr G)"
    unfolding v_course_summary_def
    by (simp add: LJ_def [symmetric] FJ_def [symmetric] key_def [symmetric] G_def [symmetric]
        collect_map_Inr [where g = sr] sr)
  have grp: "{v. Some v \<in> set (map enrolled_case g)} =
        e_user_id ` {e \<in> set enrollments. e_course_id e = cid}
      \<and> (\<forall>st. {v. Some v \<in> set (map (status_case st) g)} =
        e_user_id ` {e \<in> set enrollments. e_course_id e = cid \<and> e_status e = Some st})"
    if kg: "((cid, code, title, category, difficulty), g) \<in> set G" for cid code title category difficulty g
  proof -
    let ?k = "(cid, code, title, category, difficulty)"
    from kg have g: "g = filter (\<lambda>r. key r = ?k) FJ" and "?k \<in> key ` set FJ"
      unfolding G_def by (simp_all add: group_by_iff)
    then obtain c0 eo0 where c0: "(c0, eo0) \<in> set FJ" "key (c0, eo0) = ?k" by force
    from c0 have c0': "c0 \<in> set courses" "c_is_active c0 = Some True" "key (c0, Some e) = ?k" "c_id c0 = cid" for e
      using FJ_fst by (auto simp: key_def)
    have in_g: "(c, Some e) \<in> set g \<longleftrightarrow>
        (c, Some e) \<in> set FJ \<and> key (c, Some e) = ?k" for c e
      by (simp add: g)
    have ec: "enrolled_case (c, eo) = Some v \<longleftrightarrow> (\<exists>e. eo = Some e \<and> e_user_id e = v)"
      for c eo v
      by (cases eo) (auto simp: enrolled_case_def)
    have sc: "status_case st (c, eo) = Some v \<longleftrightarrow>
        (\<exists>e. eo = Some e \<and> e_status e = Some st \<and> e_user_id e = v)" for c eo v st
      by (cases eo; cases "e_status (the eo)")
         (auto simp: status_case_def is_true_def sql_eq_def)
    have mem: "Some v \<in> set (map enrolled_case g) \<longleftrightarrow>
        (\<exists>c e. (c, Some e) \<in> set g \<and> e_user_id e = v)" for v
      unfolding Some_in_map_iff using ec by (metis prod.collapse)
    have mem_st: "Some v \<in> set (map (status_case st) g) \<longleftrightarrow>
        (\<exists>c e. (c, Some e) \<in> set g \<and> e_status e = Some st \<and> e_user_id e = v)" for v st
      unfolding Some_in_map_iff using sc by (metis prod.collapse)
    have a: "(\<exists>c. (c, Some e) \<in> set g) \<longleftrightarrow> e \<in> set enrollments \<and> e_course_id e = cid" for e
    proof
      assume "\<exists>c. (c, Some e) \<in> set g"
      then show "e \<in> set enrollments \<and> e_course_id e = cid"
        by (auto simp: in_g FJ_Some key_def)
    next
      assume "e \<in> set enrollments \<and> e_course_id e = cid"
      with c0' have "(c0, Some e) \<in> set g" by (simp add: in_g FJ_Some)
      then show "\<exists>c. (c, Some e) \<in> set g" ..
    qed
    show ?thesis
      unfolding mem mem_st using a by (auto simp: image_iff) blast+
  qed
  have rows: "total_enrollments r =
             int (card (e_user_id ` {e \<in> set enrollments. e_course_id e = cs_course_id r}))
         \<and> completions r =
             int (card (e_user_id ` {e \<in> set enrollments. e_course_id e = cs_course_id r
                                      \<and> e_status e = Some ''completed''}))
         \<and> cs_dropouts r =
             int (card (e_user_id ` {e \<in> set enrollments. e_course_id e = cs_course_id r
                                      \<and> e_status e = Some ''dropped''}))
         \<and> active_learners r =
             int (card (e_user_id ` {e \<in> set enrollments. e_course_id e = cs_course_id r
                                      \<and> e_status e = Some ''active''}))
         \<and> completion_rate r =
             (if total_enrollments r = 0 then None
              else Some (round_half_away
                     (of_int (completions r) / of_int (total_enrollments r) * 100) 2))
         \<and> cs_dropout_rate r =
             (if total_enrollments r = 0 then None
              else Some (round_half_away
                     (of_int (cs_dropouts r) / of_int (total_enrollments r) * 100) 2))"
    if "r \<in> set (map sr G)" for r
  proof -
    from that obtain kg where kg: "kg \<in> set G" "r = sr kg" by auto
    obtain cid code title category difficulty g
      where kgeq: "kg = ((cid, code, title, category, difficulty), g)"
      by (cases kg rule: prod.exhaust [where 'a = course_key]) auto
    note grp [OF kg(1) [unfolded kgeq]]
    then show ?thesis
      unfolding kg(2) kgeq sr_def summary_of_group_eq
      by (simp add: count_distinct_card)
  qed
  have ex: "\<exists>r\<in>set (map sr G). cs_course_id r = c_id c"
    if "c \<in> set courses" "c_is_active c = Some True" for c
  proof -
    from FJ_total [OF that] obtain eo where "(c, eo) \<in> set FJ" ..
    then have "key (c, eo) \<in> key ` set FJ" by (rule imageI)
    then have "(key (c, eo), filter (\<lambda>r. key r = key (c, eo)) FJ) \<in> set G"
      by (simp add: G_def group_by_iff)
    moreover have "cs_course_id (sr (key (c, eo), g)) = c_id c" for g
      by (simp add: sr_def key_def summary_of_group_eq)
    ultimately show ?thesis by force
  qed
  have act_rows: "\<exists>c\<in>set courses. c_is_active c = Some True \<and> cs_course_id r = c_id c"
    if "r \<in> set (map sr G)" for r
  proof -
    from that obtain k g where kg: "(k, g) \<in> set G" "r = sr (k, g)" by auto
    from kg(1) have "k \<in> key ` set FJ" by (simp add: G_def group_by_iff)
    then obtain c eo where c: "(c, eo) \<in> set FJ" "k = key (c, eo)" by auto
    have "cs_course_id (sr (key (c, eo), g)) = c_id c"
      by (simp add: sr_def key_def summary_of_group_eq)
    with FJ_fst [OF c(1)] kg(2) c(2) show ?thesis by blast
  qed
  show ?thesis
    unfolding eq
    apply (rule exI [of _ "map sr G"])
    using rows ex act_rows apply blast
    done
qed

lemma unique_user_course_card:
  assumes "distinct (map (\<lambda>e. (e_user_id e, e_course_id e)) es)"
  shows "card (e_user_id ` {e \<in> set es. e_course_id e = cid \<and> P e})
       = length (filter (\<lambda>e. e_course_id e = cid \<and> P e) es)"
proof -
  let ?xs = "filter (\<lambda>e. e_course_id e = cid \<and> P e) es"
  from assms have "distinct (map (\<lambda>e. (e_user_id e, e_course_id e)) ?xs)"
    by (rule distinct_map_filter)
  moreover have "map (\<lambda>e. (e_user_id e, e_course_id e)) ?xs
      = map (\<lambda>u. (u, cid)) (map e_user_id ?xs)"
    by simp
  ultimately have "distinct (map (\<lambda>u. (u, cid)) (map e_user_id ?xs))" by simp
  then have "distinct (map e_user_id ?xs)" by (simp only: distinct_map)
  then have "card (set (map e_user_id ?xs)) = length (map e_user_id ?xs)"
    by (rule distinct_card)
  moreover have "set (map e_user_id ?xs) = e_user_id ` {e \<in> set es. e_course_id e = cid \<and> P e}"
    by auto
  ultimately show ?thesis by simp
qed

text \<open>
  C6, as the code has it. The view \<^verbatim>\<open>v_course_summary\<close> reads courses and enrollments
  only, never the learning logs, and has a row for every active course. For every row,
  \<^verbatim>\<open>total_enrollments\<close>, \<^verbatim>\<open>completions\<close> and \<^verbatim>\<open>dropouts\<close> count the distinct users among
  the course's enrollments, all of them, the completed and the dropped ones; under the
  table's constraint that a user has one enrollment per course these are the numbers of
  enrollment records. The dropout rate is dropped / total * 100 rounded to two decimals,
  the completion rate completed / total * 100 rounded to two decimals, and both are NULL
  when the course has no enrollment.
\<close>

theorem summary_rates_from_enrollments:
  "\<exists>rows. v_course_summary courses enrollments = Inr rows
     \<and> (\<forall>r\<in>set rows.
           total_enrollments r =
             int (card (e_user_id ` {e \<in> set enrollments. e_course_id e = cs_course_id r}))
         \<and> completions r =
             int (card (e_user_id ` {e \<in> set enrollments. e_course_id e = cs_course_id r
                                      \<and> e_status e = Some ''completed''}))
         \<and> cs_dropouts r =
             int (card (e_user_id ` {e \<in> set enrollments. e_course_id e = cs_course_id r
                                      \<and> e_status e = Some ''dropped''}))
         \<and> completion_rate r =
             (if total_enrollments r = 0 then None
              else Some (round_half_away
                     (of_int (completions r) / of_int (total_enrollments r) * 100) 2))
         \<and> cs_dropout_rate r =
             (if total_enrollments r = 0 then None
              else Some (round_half_away
                     (of_int (cs_dropouts r) / of_int (total_enrollments r) * 100) 2))
         \<and> (distinct (map (\<lambda>e. (e_user_id e, e_course_id e)) enrollments) \<longrightarrow>
               total_enrollments r =
                 int (length (filter (\<lambda>e. e_course_id e = cs_course_id r) enrollments))
             \<and> completions r =
                 int (length (filter (\<lambda>e. e_course_id e = cs_course_id r
                                          \<and> e_status e = Some ''completed'') enrollments))
             \<and> cs_dropouts r =
                 int (length (filter (\<lambda>e. e_course_id e = cs_course_id r
                                          \<and> e_status e = Some ''dropped'') enrollments))))
     \<and> (\<forall>c\<in>set courses. c_is_active c = Some True \<longrightarrow>
           (\<exists>r\<in>set rows. cs_course_id r = c_id c))
     \<and> (\<forall>r\<in>set rows. \<exists>c\<in>set courses.
           c_is_active c = Some True \<and> cs_course_id r = c_id c)"
proof -
  from summary_rows [of courses enrollments]
  obtain rows where eq: "v_course_summary courses enrollments = Inr rows"
    and rows: "\<forall>r\<in>set rows.
           total_enrollments r =
             int (card (e_user_id ` {e \<in> set enrollments. e_course_id e = cs_course_id r}))
         \<and> completions r =
             int (card (e_user_id ` {e \<in> set enrollments. e_course_id e = cs_course_id r
                                      \<and> e_status e = Some ''completed''}))
         \<and> cs_dropouts r =
             int (card (e_user_id ` {e \<in> set enrollments. e_course_id e = cs_course_id r
                                      \<and> e_status e = Some ''dropped''}))
         \<and> active_learners r =
             int (card (e_user_id ` {e \<in> set enrollments. e_course_id e = cs_course_id r
                                      \<and> e_status e = Some ''active''}))
         \<and> completion_rate r =
             (if total_enrollments r = 0 then None
              else Some (round_half_away
                     (of_int (completions r) / of_int (total_enrollments r) * 100) 2))
         \<and> cs_dropout_rate r =
             (if total_enrollments r = 0 then None
              else Some (round_half_away
                     (of_int (cs_dropouts r) / of_int (total_enrollments r) * 100) 2))"
    and ex: "\<forall>c\<in>set courses. c_is_active c = Some True \<longrightarrow>
           (\<exists>r\<in>set rows. cs_course_id r = c_id c)"
    and act: "\<forall>r\<in>set rows. \<exists>c\<in>set courses.
           c_is_active c = Some True \<and> cs_course_id r = c_id c"
    by (elim exE conjE)
  have u: "card (e_user_id ` {e \<in> set enrollments. e_course_id e = cid})
       = length (filter (\<lambda>e. e_course_id e = cid) enrollments)"
    if "distinct (map (\<lambda>e. (e_user_id e, e_course_id e)) enrollments)" for cid
    using unique_user_course_card [OF that, of cid "\<lambda>e. True"] by simp
  show ?thesis
    apply (rule exI [of _ rows])
    apply (intro conjI ballI impI)
              apply (fact eq)
             apply (simp_all add: rows u unique_user_course_card)
    using ex apply blast
    using act apply blast
    done
qed

theorem summary_rates_from_enrollments_witness:
  "\<exists>rows r. v_course_summary [example_course, empty_course] example_enrollments = Inr rows
     \<and> example_course \<in> set [example_course, empty_course]
     \<and> c_is_active example_course = Some True
     \<and> distinct (map (\<lambda>e. (e_user_id e, e_course_id e)) example_enrollments)
     \<and> r \<in> set rows \<and> cs_course_id r = 1
     \<and> total_enrollments r = 3 \<and> completions r = 1 \<and> cs_dropouts r = 1
     \<and> completion_rate r = Some (3333 / 100) \<and> cs_dropout_rate r = Some (3333 / 100)"
proof -
  from summary_rates_from_enrollments [of "[example_course, empty_course]" example_enrollments]
  obtain rows where eq: "v_course_summary [example_course, empty_course] example_enrollments = Inr rows"
    and rows: "\<forall>r\<in>set rows.
           total_enrollments r =
             int (card (e_user_id ` {e \<in> set example_enrollments. e_course_id e = cs_course_id r}))
         \<and> completions r =
             int (card (e_user_id ` {e \<in> set example_enrollments. e_course_id e = cs_course_id r
                                      \<and> e_status e = Some ''completed''}))
         \<and> cs_dropouts r =
             int (card (e_user_id ` {e \<in> set example_enrollments. e_course_id e = cs_course_id r
                                      \<and> e_status e = Some ''dropped''}))
         \<and> completion_rate r =
             (if total_enrollments r = 0 then None
              else Some (round_half_away
                     (of_int (completions r) / of_int (total_enrollments r) * 100) 2))
         \<and> cs_dropout_rate r =
             (if total_enrollments r = 0 then None
              else Some (round_half_away
                     (of_int (cs_dropouts r) / of_int (total_enrollments r) * 100) 2))
         \<and> (distinct (map (\<lambda>e. (e_user_id e, e_course_id e)) example_enrollments) \<longrightarrow>
               total_enrollments r =
                 int (length (filter (\<lambda>e. e_course_id e = cs_course_id r) example_enrollments))
             \<and> completions r =
                 int (length (filter (\<lambda>e. e_course_id e = cs_course_id r
                                          \<and> e_status e = Some ''completed'') example_enrollments))
             \<and> cs_dropouts r =
                 int (length (filter (\<lambda>e. e_course_id e = cs_course_id r
                                          \<and> e_status e = Some ''dropped'') example_enrollments)))"
    and ex: "\<forall>c\<in>set [example_course, empty_course]. c_is_active c = Some True \<longrightarrow>
           (\<exists>r\<in>set rows. cs_course_id r = c_id c)"
    by (elim exE conjE)
  have c: "example_course \<in> set [example_course, empty_course]"
    "c_is_active example_course = Some True" "c_id example_course = 1"
    by (simp_all add: example_course_def)
  have d: "distinct (map (\<lambda>e. (e_user_id e, e_course_id e)) example_enrollments)"
    by (simp add: example_enrollments_def)
  from ex c obtain r where r: "r \<in> set rows" "cs_course_id r = 1" by force
  from rows r(1) d have
    "total_enrollments r =
       int (length (filter (\<lambda>e. e_course_id e = cs_course_id r) example_enrollments))"
    "completions r =
       int (length (filter (\<lambda>e. e_course_id e = cs_course_id r
                                \<and> e_status e = Some ''completed'') example_enrollments))"
    "cs_dropouts r =
       int (length (filter (\<lambda>e. e_course_id e = cs_course_id r
                                \<and> e_status e = Some ''dropped'') example_enrollments))"
    by blast+
  then have n: "total_enrollments r = 3" "completions r = 1" "cs_dropouts r = 1"
    unfolding r(2) by (simp_all add: example_enrollments_def)
  from rows r(1) have
    "completion_rate r =
       (if total_enrollments r = 0 then None
        else Some (round_half_away
               (of_int (completions r) / of_int (total_enrollments r) * 100) 2))"
    "cs_dropout_rate r =
       (if total_enrollments r = 0 then None
        else Some (round_half_away
               (of_int (cs_dropouts r) / of_int (total_enrollments r) * 100) 2))"
    by blast+
  moreover have "round_half_away (of_int 1 / of_int 3 * 100) 2 = 3333 / 100" by code_simp
  ultimately have rt: "completion_rate r = Some (3333 / 100)" "cs_dropout_rate r = Some (3333 / 100)"
    unfolding n by simp_all
  show ?thesis
    apply (rule exI [of _ rows], rule exI [of _ r])
    apply (intro conjI)
    apply (fact eq c d r n rt)+
    done
qed

text \<open>
  C6 as stated gives the rate of every course as dropped / total * 100. Course 1 of the
  example has three enrollments, one of them dropped and one completed: both rates are
  33.33, not 100 / 3. The same course, when it is not active, has no row at all.
\<close>

theorem summary_rate_rounding_counterexample:
  "v_course_summary [example_course] example_enrollments =
     Inr [\<lparr>cs_course_id = 1, cs_course_code = ''PY101'', cs_title = ''Python'',
            cs_category = ''backend'', cs_difficulty = ''beginner'',
            total_enrollments = 3, completions = 1, cs_dropouts = 1,
            active_learners = 1, completion_rate = Some (3333 / 100),
            cs_dropout_rate = Some (3333 / 100)\<rparr>]
   \<and> (3333 / 100 :: rat) \<noteq> 1 / 3 * 100
   \<and> v_course_summary [archived_course] example_enrollments = Inr []"
  by code_simp

text \<open>
  C5, as the code has it. An active course without enrollments gets a row of the summary,
  no error is raised, its four counts are 0, and its \<^verbatim>\<open>completion_rate\<close> and
  \<^verbatim>\<open>dropout_rate\<close> are NULL: the guard \<^verbatim>\<open>NULLIF(COUNT(DISTINCT e.user_id), 0)\<close> turns
  the division by zero into NULL.
\<close>

theorem empty_course_summary:
  assumes "c \<in> set courses" and "c_is_active c = Some True"
    and "\<forall>e\<in>set enrollments. e_course_id e \<noteq> c_id c"
  shows "\<exists>rows. v_course_summary courses enrollments = Inr rows
     \<and> (\<exists>r\<in>set rows. cs_course_id r = c_id c)
     \<and> (\<forall>r\<in>set rows. cs_course_id r = c_id c \<longrightarrow>
           total_enrollments r = 0 \<and> completions r = 0 \<and> cs_dropouts r = 0
         \<and> active_learners r = 0 \<and> completion_rate r = None \<and> cs_dropout_rate r = None)"
proof -
  from summary_rows [of courses enrollments]
  obtain rows where eq: "v_course_summary courses enrollments = Inr rows"
    and rows: "\<forall>r\<in>set rows.
           total_enrollments r =
             int (card (e_user_id ` {e \<in> set enrollments. e_course_id e = cs_course_id r}))
         \<and> completions r =
             int (card (e_user_id ` {e \<in> set enrollments. e_course_id e = cs_course_id r
                                      \<and> e_status e = Some ''completed''}))
         \<and> cs_dropouts r =
             int (card (e_user_id ` {e \<in> set enrollments. e_course_id e = cs_course_id r
                                      \<and> e_status e = Some ''dropped''}))
         \<and> active_learners r =
             int (card (e_user_id ` {e \<in> set enrollments. e_course_id e = cs_course_id r
                                      \<and> e_status e = Some ''active''}))
         \<and> completion_rate r =
             (if total_enrollments r = 0 then None
              else Some (round_half_away
                     (of_int (completions r) / of_int (total_enrollments r) * 100) 2))
         \<and> cs_dropout_rate r =
             (if total_enrollments r = 0 then None
              else Some (round_half_away
                     (of_int (cs_dropouts r) / of_int (total_enrollments r) * 100) 2))"
    and ex: "\<forall>c\<in>set courses. c_is_active c = Some True \<longrightarrow>
           (\<exists>r\<in>set rows. cs_course_id r = c_id c)"
    by (elim exE conjE)
  have none: "{e \<in> set enrollments. e_course_id e = c_id c \<and> P e} = {}" for P
    using assms(3) by auto
  have none': "{e \<in> set enrollments. e_course_id e = c_id c} = {}"
    using assms(3) by auto
  have "total_enrollments r = 0 \<and> completions r = 0 \<and> cs_dropouts r = 0
         \<and> active_learners r = 0 \<and> completion_rate r = None \<and> cs_dropout_rate r = None"
    if "r \<in> set rows" "cs_course_id r = c_id c" for r
  proof -
    from rows that(1) have
      "total_enrollments r =
             int (card (e_user_id ` {e \<in> set enrollments. e_course_id e = cs_course_id r}))"
      "completions r =
             int (card (e_user_id ` {e \<in> set enrollments. e_course_id e = cs_course_id r
                                      \<and> e_status e = Some ''completed''}))"
      "cs_dropouts r =
             int (card (e_user_id ` {e \<in> set enrollments. e_course_id e = cs_course_id r
                                      \<and> e_status e = Some ''dropped''}))"
      "active_learners r =
             int (card (e_user_id ` {e \<in> set enrollments. e_course_id e = cs_course_id r
                                      \<and> e_status e = Some ''active''}))"
      "completion_rate r =
             (if total_enrollments r = 0 then None
              else Some (round_half_away
                     (of_int (completions r) / of_int (total_enrollments r) * 100) 2))"
      "cs_dropout_rate r =
             (if total_enrollments r = 0 then None
              else Some (round_half_away
                     (of_int (cs_dropouts r) / of_int (total_enrollments r) * 100) 2))"
      by blast+
    then show ?thesis unfolding that(2) none none' by simp
  qed
  moreover from ex assms(1,2) have "\<exists>r\<in>set rows. cs_course_id r = c_id c" by blast
  ultimately show ?thesis using eq by blast
qed

theorem empty_course_summary_witness:
  "\<exists>rows r. empty_course \<in> set [example_course, empty_course]
     \<and> c_is_active empty_course = Some True
     \<and> e_course_id (example_enrollments ! 0) \<noteq> c_id empty_course
     \<and> e_course_id (example_enrollments ! 1) \<noteq> c_id empty_course
     \<and> e_course_id (example_enrollments ! 2) \<noteq> c_id empty_course
     \<and> length example_enrollments = 3
     \<and> v_course_summary [example_course, empty_course] example_enrollments = Inr rows
     \<and> r \<in> set rows \<and> cs_course_id r = 2
     \<and> total_enrollments r = 0 \<and> completions r = 0 \<and> cs_dropouts r = 0
     \<and> active_learners r = 0 \<and> completion_rate r = None \<and> cs_dropout_rate r = None"
proof -
  have h: "empty_course \<in> set [example_course, empty_course]"
    "c_is_active empty_course = Some True"
    "\<forall>e\<in>set example_enrollments. e_course_id e \<noteq> c_id empty_course"
    by (simp_all add: empty_course_def example_enrollments_def)
  have i: "e_course_id (example_enrollments ! 0) \<noteq> c_id empty_course"
    "e_course_id (example_enrollments ! 1) \<noteq> c_id empty_course"
    "e_course_id (example_enrollments ! 2) \<noteq> c_id empty_course"
    "length example_enrollments = 3" "c_id empty_course = 2"
    by (simp_all add: empty_course_def example_enrollments_def)
  from empty_course_summary [OF h]
  obtain rows r where "v_course_summary [example_course, empty_course] example_enrollments = Inr rows"
    "r \<in> set rows" "cs_course_id r = 2"
    "total_enrollments r = 0" "completions r = 0" "cs_dropouts r = 0"
    "active_learners r = 0" "completion_rate r = None" "cs_dropout_rate r = None"
    unfolding i(5) by blast
  with h(1,2) i(1-4) show ?thesis by blast
qed

text \<open>
  C5 as stated asks for rates equal to 0, not NULL. The second course of the example has no
  enrollment: its two rates are NULL.
\<close>

theorem empty_course_summary_counterexample:
  "v_course_summary [example_course, empty_course] example_enrollments =
     Inr [\<lparr>cs_course_id = 1, cs_course_code = ''PY101'', cs_title = ''Python'',
            cs_category = ''backend'', cs_difficulty = ''beginner'',
            total_enrollments = 3, completions = 1, cs_dropouts = 1,
            active_learners = 1, completion_rate = Some (3333 / 100),
            cs_dropout_rate = Some (3333 / 100)\<rparr>,
          \<lparr>cs_course_id = 2, cs_course_code = ''SQL201'', cs_title = ''SQL'',
            cs_category = ''data'', cs_difficulty = ''intermediate'',
            total_enrollments = 0, completions = 0, cs_dropouts = 0,
            active_learners = 0, completion_rate = None,
            cs_dropout_rate = None\<rparr>]
   \<and> completion_rate (projr (v_course_summary [example_course, empty_course] example_enrollments) ! 1) \<noteq> Some 0
   \<and> cs_dropout_rate (projr (v_course_summary [example_course, empty_course] example_enrollments) ! 1) \<noteq> Some 0"
  by code_simp

section \<open>Dropout reasons and the peak segment on the dropout page\<close>



















lemma indexOf_first:
  "v \<in> set xs \<Longrightarrow>
     \<exists>i. indexOf xs v = int i \<and> i < length xs \<and> xs ! i = v \<and> (\<forall>j<i. xs ! j \<noteq> v)"
proof (induction xs)
  case Nil
  then show ?case by simp
next
  case (Cons x xs)
  show ?case
  proof (cases "x = v")
    case True
    then show ?thesis by simp
  next
    case False
    with Cons.prems have "v \<in> set xs" by simp
    from Cons.IH [OF this] obtain i where i: "indexOf xs v = int i" "i < length xs"
      "xs ! i = v" "\<forall>j<i. xs ! j \<noteq> v" by blast
    have "\<forall>j<Suc i. (x # xs) ! j \<noteq> v"
    proof (intro allI impI)
      fix j assume "j < Suc i"
      then show "(x # xs) ! j \<noteq> v" using False i(4) by (cases j) simp_all
    qed
    moreover have "indexOf (x # xs) v = int (Suc i)" using False i(1) by (simp add: Let_def)
    ultimately show ?thesis using i(2,3) by (intro exI [of _ "Suc i"]) simp
  qed
qed

lemma fold_max_props:
  fixes x :: int
  shows "fold max ys x \<in> set (x # ys) \<and> (\<forall>y\<in>set (x # ys). y \<le> fold max ys x)"
proof -
  have "fold max ys x = Max (set (x # ys))" by (simp only: Max.set_eq_fold)
  moreover have "Max (set (x # ys)) \<in> set (x # ys)" by (rule Max_in) simp_all
  moreover have "\<forall>y\<in>set (x # ys). y \<le> Max (set (x # ys))" by (simp add: Max_ge)
  ultimately show ?thesis by simp
qed

text \<open>
  C8, as the code has it. When the chart data is ready, the peak shown on the dropout page
  is the first segment (the lowest index) whose dropout rate, rounded to an integer, is the
  largest of the rounded rates; the page shows the label at that index and that rate. The
  dropout counts are not consulted.
\<close>

theorem peak_is_first_max_rate:
  assumes "isChartDataReady chartData"
  shows "\<exists>m i. maxDropoutRate chartData = Some m \<and> peakIndex chartData = int i
     \<and> i < length (dropoutRates chartData) \<and> dropoutRates chartData ! i = m
     \<and> (\<forall>j<length (dropoutRates chartData). dropoutRates chartData ! j \<le> m)
     \<and> (\<forall>j<i. dropoutRates chartData ! j < m)
     \<and> peakInfo chartData = Some (at_index (simpleLabels chartData) (int i), Some m)"
proof -
  let ?rs = "dropoutRates chartData"
  from assms have ne: "?rs \<noteq> []"
    by (cases chartData) (auto simp: isChartDataReady_def)
  then obtain x ys where rs: "?rs = x # ys" by (cases ?rs) auto
  define m where "m = fold max ys x"
  have mx: "maxDropoutRate chartData = Some m"
    using assms by (simp add: maxDropoutRate_def Math_max_def rs m_def)
  from fold_max_props [of ys x] have m_in: "m \<in> set ?rs" and m_ub: "\<forall>y\<in>set ?rs. y \<le> m"
    unfolding rs m_def by blast+
  from indexOf_first [OF m_in] obtain i where i: "indexOf ?rs m = int i" "i < length ?rs"
    "?rs ! i = m" "\<forall>j<i. ?rs ! j \<noteq> m" by blast
  have pi: "peakIndex chartData = int i" by (simp add: peakIndex_def mx i(1))
  have ub: "\<forall>j<length ?rs. ?rs ! j \<le> m" using m_ub by simp
  have lt: "\<forall>j<i. ?rs ! j < m"
  proof (intro allI impI)
    fix j assume j: "j < i"
    with i(2) ub have "?rs ! j \<le> m" by simp
    moreover from i(4) j have "?rs ! j \<noteq> m" by blast
    ultimately show "?rs ! j < m" by simp
  qed
  have "peakInfo chartData = Some (at_index (simpleLabels chartData) (int i), Some m)"
    using assms by (simp add: peakInfo_def pi mx)
  with mx pi i(2,3) ub lt show ?thesis by blast
qed

theorem peak_is_first_max_rate_witness:
  "isChartDataReady (Some example_chart)
   \<and> dropoutRates (Some example_chart) = [5, 30]
   \<and> maxDropoutRate (Some example_chart) = Some 30
   \<and> peakIndex (Some example_chart) = 1
   \<and> peakInfo (Some example_chart) = Some (Some ''10%'', Some 30)"
proof -
  have r: "isChartDataReady (Some example_chart)" by code_simp
  have d: "dropoutRates (Some example_chart) = [5, 30]" by code_simp
  have l: "simpleLabels (Some example_chart) = [''0%'', ''10%'']" by code_simp
  from peak_is_first_max_rate [OF r] obtain m i
    where "maxDropoutRate (Some example_chart) = Some m"
      and "peakIndex (Some example_chart) = int i"
      and "i < length (dropoutRates (Some example_chart))"
      and "dropoutRates (Some example_chart) ! i = m"
      and ub: "\<forall>j<length (dropoutRates (Some example_chart)). dropoutRates (Some example_chart) ! j \<le> m"
      and "peakInfo (Some example_chart) = Some (at_index (simpleLabels (Some example_chart)) (int i), Some m)"
    by blast
  note f = this
  have len: "length (dropoutRates (Some example_chart)) = 2" by (simp add: d)
  with ub have "dropoutRates (Some example_chart) ! 1 \<le> m" by simp
  then have ge: "30 \<le> m" by (simp add: d)
  from f(3) len have "i = 0 \<or> i = 1" by auto
  with f(4) ge have "i = 1" "m = 30" by (auto simp: d)
  with f(1,2,6) r d l show ?thesis by (simp add: at_index_def)
qed

text \<open>
  C8 as stated takes the segment with the most dropouts. In the example the first segment
  has 5 dropouts and the second 3, but the rates are 5 and 30 percent: the page shows the
  second segment, whose count is not the largest.
\<close>

theorem peak_by_count_counterexample:
  "peakInfo (Some example_chart) = Some (Some ''10%'', Some 30)
   \<and> peakIndex (Some example_chart) = 1
   \<and> simpleLabels (Some example_chart) = [''0%'', ''10%'']
   \<and> dropout_counts example_chart = [5, 3]
   \<and> Math_max (dropout_counts example_chart) = Some 5
   \<and> indexOf (dropout_counts example_chart) 5 = 0"
  by code_simp

section \<open>Outcomes of the fetch wrapper\<close>

text \<open>
  C10, as the code has it. When \<^verbatim>\<open>fetch\<close> resolves with a response whose \<^verbatim>\<open>ok\<close> is false,
  \<^verbatim>\<open>fetchApi\<close> throws an \<^verbatim>\<open>ApiError\<close> carrying the response's status and status text and
  returns nothing. When \<^verbatim>\<open>ok\<close> is true it returns the parsed body if
  \<^verbatim>\<open>response.json()\<close> resolves; if that rejects, or if \<^verbatim>\<open>fetch\<close> itself rejects, the
  rejection leaves the wrapper unchanged, not as an \<^verbatim>\<open>ApiError\<close>.
\<close>

theorem fetchApi_outcomes:
  "(fetch url options = Inr response \<and> \<not> ok response \<longrightarrow>
      fetchApi fetch url options =
        Inl (ApiError (message_prefix @ statusText response) (status response)
               (statusText response)))
   \<and> (fetch url options = Inr response \<and> ok response \<and> json response = Inr parsed \<longrightarrow>
        fetchApi fetch url options = Inr parsed)
   \<and> (fetch url options = Inr response \<and> ok response \<and> json response = Inl e \<longrightarrow>
        fetchApi fetch url options = Inl (Rejected e))
   \<and> (fetch url options = Inl e \<longrightarrow> fetchApi fetch url options = Inl (Rejected e))"
  by (simp add: fetchApi_def)

theorem fetchApi_outcomes_witness:
  "example_fetch ''/api/missing'' None = Inr not_found_response \<and> \<not> ok not_found_response
   \<and> fetchApi example_fetch ''/api/missing'' None =
       Inl (ApiError (message_prefix @ ''Not Found'') 404 ''Not Found'')
   \<and> example_fetch ''/api/courses/'' None = Inr parsed_response \<and> ok parsed_response
   \<and> json parsed_response = Inr 7
   \<and> fetchApi example_fetch ''/api/courses/'' None = Inr 7
   \<and> example_fetch ''/api/html'' None = Inr unparsable_response \<and> ok unparsable_response
   \<and> json unparsable_response = Inl ''SyntaxError''
   \<and> fetchApi example_fetch ''/api/html'' None = Inl (Rejected ''SyntaxError'')
   \<and> example_fetch ''/api/down'' None = Inl ''TypeError''
   \<and> fetchApi example_fetch ''/api/down'' None = Inl (Rejected ''TypeError'')"
proof -
  have a: "example_fetch ''/api/missing'' None = Inr not_found_response" "\<not> ok not_found_response"
    "status not_found_response = 404" "statusText not_found_response = ''Not Found''"
    by (simp_all add: example_fetch_def not_found_response_def)
  have b: "example_fetch ''/api/courses/'' None = Inr parsed_response" "ok parsed_response"
    "json parsed_response = Inr 7"
    by (simp_all add: example_fetch_def parsed_response_def)
  have c: "example_fetch ''/api/html'' None = Inr unparsable_response" "ok unparsable_response"
    "json unparsable_response = Inl ''SyntaxError''"
    by (simp_all add: example_fetch_def unparsable_response_def)
  have d: "example_fetch ''/api/down'' None = Inl ''TypeError''"
    by (simp add: example_fetch_def)
  from fetchApi_outcomes [of example_fetch "''/api/missing''" None not_found_response 0 "''x''"] a
  have 1: "fetchApi example_fetch ''/api/missing'' None =
       Inl (ApiError (message_prefix @ ''Not Found'') 404 ''Not Found'')"
    by simp
  from fetchApi_outcomes [of example_fetch "''/api/courses/''" None parsed_response 7 "''x''"] b
  have 2: "fetchApi example_fetch ''/api/courses/'' None = Inr 7" by simp
  from fetchApi_outcomes [of example_fetch "''/api/html''" None unparsable_response 0 "''SyntaxError''"] c
  have 3: "fetchApi example_fetch ''/api/html'' None = Inl (Rejected ''SyntaxError'')" by simp
  from fetchApi_outcomes [of example_fetch "''/api/down''" None not_found_response 0 "''TypeError''"] d
  have 4: "fetchApi example_fetch ''/api/down'' None = Inl (Rejected ''TypeError'')" by simp
  from a(1,2) b c d 1 2 3 4 show ?thesis by simp
qed

text \<open>
  C10 as stated allows no third outcome. A successful response whose body is not JSON is
  one: the wrapper neither throws an \<^verbatim>\<open>ApiError\<close> nor returns a value.
\<close>

theorem fetchApi_third_outcome_counterexample:
  "example_fetch ''/api/html'' None = Inr unparsable_response
   \<and> ok unparsable_response
   \<and> fetchApi example_fetch ''/api/html'' None = Inl (Rejected ''SyntaxError'')"
  by (simp add: fetchApi_def example_fetch_def unparsable_response_def)

end
